theory Spec2Isabelle
  imports Complex_Main
begin

section \<open>Go string helpers used by the dialect adapter\<close>

text \<open>
  Go strings are byte sequences; they are modelled as \<open>string\<close> (a list of 8-bit
  characters).  The functions below are the parts of Go's \<open>strings\<close> and \<open>strconv\<close>
  packages that \<open>internal/sqlx\<close> calls.  Every caller passes a non-empty literal as the
  text to search for.
\<close>

fun HasPrefix :: "string \<Rightarrow> string \<Rightarrow> bool" where
  "HasPrefix s [] = True"
| "HasPrefix [] (p # ps) = False"
| "HasPrefix (c # cs) (p # ps) = (c = p \<and> HasPrefix cs ps)"

fun Contains :: "string \<Rightarrow> string \<Rightarrow> bool" where
  "Contains [] sub = (sub = [])"
| "Contains (c # cs) sub = (HasPrefix (c # cs) sub \<or> Contains cs sub)"

text \<open>
  \<open>strings.Replace(s, old, new, n)\<close>: the first \<open>n\<close> non-overlapping occurrences of
  \<open>old\<close>, from the left; all of them when \<open>n < 0\<close>.  (With an empty \<open>old\<close> Go inserts
  \<open>new\<close> between the runes; no caller does that, and the model returns \<open>s\<close>.)
\<close>

function Replace :: "string \<Rightarrow> string \<Rightarrow> string \<Rightarrow> int \<Rightarrow> string" where
  "Replace [] old new n = []"
| "Replace (c # cs) old new n =
     (if n = 0 \<or> old = [] then c # cs
      else if HasPrefix (c # cs) old
        then new @ Replace (drop (length old) (c # cs)) old new (n - 1)
      else c # Replace cs old new n)"
  by pat_completeness auto
termination
  by (relation "measure (\<lambda>(s, old, new, n). length s)") auto

definition ReplaceAll :: "string \<Rightarrow> string \<Rightarrow> string \<Rightarrow> string" where
  "ReplaceAll s old new = Replace s old new (- 1)"

text \<open>\<open>strings.Index\<close>: the offset of the first occurrence, or \<open>-1\<close>.\<close>

fun Index :: "string \<Rightarrow> string \<Rightarrow> int" where
  "Index [] sub = (if sub = [] then 0 else - 1)"
| "Index (c # cs) sub =
     (if HasPrefix (c # cs) sub then 0
      else (let i = Index cs sub in if i < 0 then - 1 else i + 1))"

text \<open>\<open>strings.Split(s, sep)\<close> for a non-empty separator.\<close>

function splitFrom :: "string \<Rightarrow> string \<Rightarrow> string \<Rightarrow> string list" where
  "splitFrom acc [] sep = [rev acc]"
| "splitFrom acc (c # cs) sep =
     (if sep \<noteq> [] \<and> HasPrefix (c # cs) sep
        then rev acc # splitFrom [] (drop (length sep) (c # cs)) sep
      else splitFrom (c # acc) cs sep)"
  by pat_completeness auto
termination
  by (relation "measure (\<lambda>(acc, s, sep). length s)") auto

definition Split :: "string \<Rightarrow> string \<Rightarrow> string list" where
  "Split s sep = splitFrom [] s sep"

fun Join :: "string list \<Rightarrow> string \<Rightarrow> string" where
  "Join [] sep = []"
| "Join [x] sep = x"
| "Join (x # y # ys) sep = x @ sep @ Join (y # ys) sep"

definition isSpace :: "char \<Rightarrow> bool" where
  "isSpace c = (c = CHR '' '' \<or> c = CHR 0x09 \<or> c = CHR 0x0A \<or> c = CHR 0x0B
                \<or> c = CHR 0x0C \<or> c = CHR 0x0D)"

definition TrimSpace :: "string \<Rightarrow> string" where
  "TrimSpace s = rev (dropWhile isSpace (rev (dropWhile isSpace s)))"

text \<open>\<open>strconv.Itoa\<close>: the decimal text of an integer.\<close>

definition digitChar :: "nat \<Rightarrow> char" where
  "digitChar d = char_of (48 + d)"

function digits :: "nat \<Rightarrow> string" where
  "digits n = (if n < 10 then [digitChar n] else digits (n div 10) @ [digitChar (n mod 10)])"
  by pat_completeness auto
termination
  by (relation "measure id") auto

definition Itoa :: "int \<Rightarrow> string" where
  "Itoa i = (if i < 0 then CHR ''-'' # digits (nat (- i)) else digits (nat i))"

declare digits.simps [simp del]

section \<open>The dialect adapter (package sqlx)\<close>

definition DriverSQLite :: string where "DriverSQLite = ''sqlite''"
definition DriverPostgres :: string where "DriverPostgres = ''postgres''"

definition Asc :: string where "Asc = ''asc''"
definition Desc :: string where "Desc = ''desc''"

text \<open>
  \<open>ExpandIn\<close> replaces the first occurrence of the parameter macro by one \<open>?\<close> per
  argument, joined with commas, and returns the arguments beside the query.
\<close>

definition ExpandIn :: "string \<Rightarrow> string \<Rightarrow> 'a list \<Rightarrow> string \<times> 'a list" where
  "ExpandIn query param args =
     (let pholders = map (\<lambda>arg. ''?'') args
      in (Replace query param (Join pholders '','') 1, args))"

text \<open>
  \<open>ConvertPlaceholders\<close> walks over the bytes of the query and writes \<open>$k\<close> for the
  \<open>k\<close>-th question mark.  It does not look at the engine flag.
\<close>

fun convertLoop :: "string \<Rightarrow> int \<Rightarrow> string" where
  "convertLoop [] paramNum = []"
| "convertLoop (c # cs) paramNum =
     (if c = CHR ''?'' then (''$'' @ Itoa paramNum) @ convertLoop cs (paramNum + 1)
      else c # convertLoop cs paramNum)"

definition ConvertPlaceholders :: "string \<Rightarrow> string" where
  "ConvertPlaceholders query =
     (if Contains query ''?'' then convertLoop query 1 else query)"


subsection \<open>AdaptPostgresQuery\<close>

text \<open>
  \<open>AdaptPostgresQuery\<close> is one Go function that rewrites the query text in a fixed
  sequence of blocks.  Each block is a definition here, in the order of the source, and
  the function is their composition, ending with \<open>ConvertPlaceholders\<close>.
\<close>

definition when_contains :: "string \<Rightarrow> (string \<Rightarrow> string) \<Rightarrow> string \<Rightarrow> string" where
  "when_contains sub f query = (if Contains query sub then f query else query)"

definition adaptUpdateOrReplace :: "string \<Rightarrow> string" where
  "adaptUpdateOrReplace query =
     (if Contains query ''update or replace''
      then ReplaceAll query ''update or replace'' ''update'' else query)"

definition adaptRowid :: "string \<Rightarrow> string" where
  "adaptRowid query = ReplaceAll query ''rowid'' ''ctid::text''"

definition adaptGlob :: "string \<Rightarrow> string" where
  "adaptGlob query =
     (let query = ReplaceAll query '' glob '' '' ILIKE '';
          query = ReplaceAll query ''field glob'' ''field ILIKE'';
          query = ReplaceAll query ''elem glob'' ''elem ILIKE''
      in query)"

definition adaptEmptyIn :: "string \<Rightarrow> string" where
  "adaptEmptyIn query =
     (if Contains query ''in ()''
      then ReplaceAll query ''in ()'' ''= ANY('{}'::text[])'' else query)"

definition adaptConflictColumns :: "string \<Rightarrow> string" where
  "adaptConflictColumns query =
     (if Contains query ''ON CONFLICT'' \<or> Contains query ''on conflict'' then
        (let query = when_contains ''type = CASE WHEN type = excluded.type''
               (\<lambda>q. Replace q ''type = CASE WHEN type = excluded.type THEN type ELSE null END''
                      ''type = CASE WHEN rkey.type = excluded.type THEN rkey.type ELSE null END'' (- 1))
               query;
             query = when_contains ''type = case when type = excluded.type''
               (\<lambda>q. Replace q ''type = case when type = excluded.type then type else null end''
                      ''type = CASE WHEN rkey.type = excluded.type THEN rkey.type ELSE null END'' (- 1))
               query;
             query = when_contains ''version = version+1''
               (\<lambda>q. Replace q ''version = version+1'' ''version = rkey.version+1'' (- 1)) query;
             query = when_contains ''version = version + 1''
               (\<lambda>q. Replace q ''version = version + 1'' ''version = rkey.version + 1'' (- 1)) query;
             query = when_contains ''mtime = excluded.mtime''
               (\<lambda>q. Replace q ''mtime = excluded.mtime'' ''mtime = excluded.mtime'' (- 1)) query;
             query = when_contains ''etime = excluded.etime''
               (\<lambda>q. Replace q ''etime = excluded.etime'' ''etime = excluded.etime'' (- 1)) query;
             query = when_contains ''len = len + 1''
               (\<lambda>q. Replace q ''len = len + 1'' ''len = rkey.len + 1'' (- 1)) query
         in query)
      else query)"

definition adaptOnConflict :: "string \<Rightarrow> string" where
  "adaptOnConflict query =
     (if Contains query ''on conflict'' then
        (if Contains query ''returning'' then
           (let parts = Split query ''returning'' in
            if length parts > 1 then
              (let query = parts ! 0;
                   returningClause = ''RETURNING'' @ parts ! 1
               in if Contains query ''on conflict'' then
                    (let query = Replace query ''on conflict'' ''ON CONFLICT'' (- 1);
                         query = Replace query ''do update set'' ''DO UPDATE SET'' (- 1)
                     in query @ '' '' @ returningClause)
                  else query)
            else query)
         else
           (let query = Replace query ''on conflict'' ''ON CONFLICT'' (- 1);
                query = Replace query ''do update set'' ''DO UPDATE SET'' (- 1);
                query = Replace query ''do nothing'' ''DO NOTHING'' (- 1)
            in query))
      else query)"

definition adaptCase :: "string \<Rightarrow> string" where
  "adaptCase query =
     (if Contains query ''case when'' then
        (let query = Replace query ''case when'' ''CASE WHEN'' (- 1);
             query = Replace query ''then'' ''THEN'' (- 1);
             query = Replace query ''else'' ''ELSE'' (- 1);
             query = Replace query ''end'' ''END'' (- 1)
         in query)
      else query)"

definition adaptLimit :: "string \<Rightarrow> string" where
  "adaptLimit query0 =
     (let query = (if Contains query0 ''limit\<newline>''
                   then ReplaceAll query0 ''limit\<newline>'' ''LIMIT '' else query0)
      in if Contains query ''limit'' then
           (let limStartIdx = Index query ''limit'' in
            if limStartIdx \<noteq> - 1 then
              (let restOfQuery = drop (nat limStartIdx) query;
                   semicolonPos = Index restOfQuery '';'';
                   limEndIdx = (if semicolonPos \<noteq> - 1 then limStartIdx + semicolonPos
                                else int (length query));
                   limitClause = drop (nat limStartIdx) (take (nat limEndIdx) query)
               in if Contains limitClause '','' then
                    (let parts = Split (drop 6 limitClause) '','' in
                     if length parts = 2 then
                       (let x = TrimSpace (parts ! 0);
                            y = TrimSpace (parts ! 1);
                            newLimitClause = ''LIMIT '' @ y @ '' OFFSET '' @ x
                        in take (nat limStartIdx) query @ newLimitClause
                             @ drop (nat limEndIdx) query)
                     else query)
                  else query)
            else query)
         else query)"

definition replaceEach :: "(string \<times> string) list \<Rightarrow> string \<Rightarrow> string" where
  "replaceEach pairs query = fold (\<lambda>(old, new) q. ReplaceAll q old new) pairs query"

definition adaptKeywords :: "string \<Rightarrow> string" where
  "adaptKeywords query = replaceEach
     [(''and field in (:fields)'', ''AND field IN (:fields)''),
      (''and field = ?'', ''AND field = ?''),
      (''and ('', ''AND (''),
      (''and elem in'', ''AND elem IN''),
      (''and elem = ?'', ''AND elem = ?''),
      (''and score between'', ''AND score BETWEEN''),
      (''and '', ''AND ''),
      ('' and '', '' AND ''),
      (''\<newline>and '', ''\<newline>AND ''),
      (''and\<newline>'', ''AND\<newline>''),
      (''or '', ''OR ''),
      ('' or '', '' OR ''),
      (''\<newline>or '', ''\<newline>OR ''),
      (''or\<newline>'', ''OR\<newline>''),
      (''where '', ''WHERE ''),
      ('' where '', '' WHERE ''),
      (''\<newline>where '', ''\<newline>WHERE ''),
      (''join '', ''JOIN ''),
      ('' join '', '' JOIN ''),
      (''\<newline>join '', ''\<newline>JOIN ''),
      (''order by '', ''ORDER BY ''),
      ('' order by '', '' ORDER BY ''),
      (''\<newline>order by '', ''\<newline>ORDER BY ''),
      (''group by '', ''GROUP BY ''),
      ('' group by '', '' GROUP BY ''),
      (''\<newline>group by '', ''\<newline>GROUP BY '')] query"

definition adaptJoin :: "string \<Rightarrow> string" where
  "adaptJoin query =
     (if Contains query ''JOIN'' then
        (let query = when_contains ''type = 1'' (\<lambda>q. Replace q ''type = 1'' ''rkey.type = 1'' 1) query;
             query = when_contains ''type = 2'' (\<lambda>q. Replace q ''type = 2'' ''rkey.type = 2'' 1) query;
             query = when_contains ''type = 3'' (\<lambda>q. Replace q ''type = 3'' ''rkey.type = 3'' 1) query;
             query = when_contains ''type = 4'' (\<lambda>q. Replace q ''type = 4'' ''rkey.type = 4'' 1) query;
             query = when_contains ''type = 5'' (\<lambda>q. Replace q ''type = 5'' ''rkey.type = 5'' 1) query;
             query = Replace query ''on kid = rkey.id and'' ''on kid = rkey.id AND'' (- 1);
             query = (if Contains query ''WHERE key ='' \<and> Contains query ''etime is null''
                      then Replace query ''etime is null'' ''rkey.etime is null'' (- 1) else query);
             query = (if Contains query ''WHERE key ='' \<and> Contains query ''etime >''
                      then Replace query ''etime >'' ''rkey.etime >'' (- 1) else query)
         in query)
      else query)"

definition AdaptPostgresQuery :: "string \<Rightarrow> string" where
  "AdaptPostgresQuery query =
     ConvertPlaceholders (adaptJoin (adaptKeywords (adaptLimit (adaptCase (adaptOnConflict
       (adaptConflictColumns (adaptEmptyIn (adaptGlob (adaptRowid
         (adaptUpdateOrReplace query))))))))))"

text \<open>
  What reaches the engine.  \<open>execTx\<close> hands the repository a \<open>PostgresTx\<close> when the
  driver is PostgreSQL and the bare \<open>*sql.Tx\<close> otherwise; \<open>PostgresTx\<close> adapts the query
  text and forwards the arguments as they are.
\<close>

datatype txkind = RawTx | PostgresTx

definition txFor :: "string \<Rightarrow> txkind" where
  "txFor driver = (if driver = DriverPostgres then PostgresTx else RawTx)"

definition tx_Query :: "txkind \<Rightarrow> string \<Rightarrow> 'a list \<Rightarrow> string \<times> 'a list" where
  "tx_Query tx query args =
     (case tx of PostgresTx \<Rightarrow> (AdaptPostgresQuery query, args) | RawTx \<Rightarrow> (query, args))"


section \<open>The relational data model\<close>

text \<open>
  The tables of \<open>schema_postgres.sql\<close>.  A table is the list of its rows in storage
  order, so that a query without \<open>ORDER BY\<close> returns rows in an order the theory does
  not fix.  \<open>NULL\<close> is \<open>None\<close>.  Times are milliseconds since the epoch.  List
  positions (\<open>REAL\<close>) are rationals: only their order and the arithmetic of the push
  queries are used.  Byte strings are \<open>string\<close>.  The rows of \<open>rhash\<close> carry the
  engine's \<open>rowid\<close>, which \<open>sqlScan\<close> reads.
\<close>

type_synonym bytes = string

record rkey_row =
  k_id :: int
  k_key :: string
  k_type :: int
  k_version :: int
  k_etime :: "int option"
  k_mtime :: int
  k_len :: "int option"

record rstring_row =
  s_kid :: int
  s_value :: bytes

record rlist_row =
  l_kid :: int
  l_pos :: rat
  l_elem :: bytes

record rset_row =
  e_kid :: int
  e_elem :: bytes

record rhash_row =
  h_rowid :: int
  h_kid :: int
  h_field :: string
  h_value :: bytes

record rzset_row =
  z_kid :: int
  z_elem :: bytes
  z_score :: rat

record database =
  rkey :: "rkey_row list"
  rstring :: "rstring_row list"
  rlist :: "rlist_row list"
  rset :: "rset_row list"
  rhash :: "rhash_row list"
  rzset :: "rzset_row list"

definition emptyDB :: database where
  "emptyDB = \<lparr>rkey = [], rstring = [], rlist = [], rset = [], rhash = [], rzset = []\<rparr>"

definition TypeString :: int where "TypeString = 1"
definition TypeList :: int where "TypeList = 2"
definition TypeSet :: int where "TypeSet = 3"
definition TypeHash :: int where "TypeHash = 4"
definition TypeZSet :: int where "TypeZSet = 5"

datatype error =
    ErrNotFound
  | ErrKeyType
  | ErrValueType
  | ErrScan string
  | SqlError string

text \<open>\<open>(etime is null or etime > ?)\<close>\<close>

definition live :: "int \<Rightarrow> rkey_row \<Rightarrow> bool" where
  "live now k = (case k_etime k of None \<Rightarrow> True | Some e \<Rightarrow> e > now)"

text \<open>
  \<open>from rkey where key = ? and type = ? and (etime is null or etime > ?)\<close>, the row
  source of \<open>sqlLen\<close> and of the \<open>curkey\<close> subqueries.
\<close>

definition live_keys :: "database \<Rightarrow> int \<Rightarrow> string \<Rightarrow> int \<Rightarrow> rkey_row list" where
  "live_keys db now key t = [k \<leftarrow> rkey db. k_key k = key \<and> k_type k = t \<and> live now k]"

text \<open>
  What the repository leaves to the SQL engine: the \<open>GLOB\<close> operator (field, then
  pattern), the text of the error raised when \<open>NULL\<close> is written to a \<open>NOT NULL\<close>
  column, and the answer to a \<open>LIMIT\<close> that evaluates to \<open>NULL\<close> (\<open>Some e\<close>: the
  statement fails with \<open>e\<close>; \<open>None\<close>: no limit).  \<open>sqlite\<close> gives SQLite's error
  texts.  The rest of the model follows SQLite, the default driver: a negative
  \<open>LIMIT\<close> is no limit and a negative \<open>OFFSET\<close> is zero.
\<close>

record engine =
  globMatch :: "string \<Rightarrow> string \<Rightarrow> bool"
  notNullText :: "string \<Rightarrow> string"
  nullLimit :: "error option"

definition sqlite :: "(string \<Rightarrow> string \<Rightarrow> bool) \<Rightarrow> engine" where
  "sqlite glob = \<lparr>globMatch = glob,
                  notNullText = (\<lambda>column. ''NOT NULL constraint failed: '' @ column),
                  nullLimit = Some (SqlError ''datatype mismatch'')\<rparr>"

text \<open>
  PostgreSQL behind \<open>lib/pq\<close>, the driver the repository imports: the failure of a
  \<open>NOT NULL\<close> column is worded \<open>pq: null value in column "c" of relation "t" violates
  not-null constraint\<close>, and a \<open>LIMIT\<close> that evaluates to \<open>NULL\<close> is no limit.
\<close>

definition quoteIdent :: "string \<Rightarrow> string" where
  "quoteIdent s = CHR 0x22 # s @ [CHR 0x22]"

definition postgres :: "(string \<Rightarrow> string \<Rightarrow> bool) \<Rightarrow> engine" where
  "postgres glob =
     \<lparr>globMatch = glob,
      notNullText = (\<lambda>column.
        ''pq: null value in column ''
          @ quoteIdent (drop 1 (dropWhile (\<lambda>c. c \<noteq> CHR ''.'') column))
          @ '' of relation '' @ quoteIdent (takeWhile (\<lambda>c. c \<noteq> CHR ''.'') column)
          @ '' violates not-null constraint''),
      nullLimit = None\<rparr>"

definition sqlLimit :: "int \<Rightarrow> 'a list \<Rightarrow> 'a list" where
  "sqlLimit n rows = (if n < 0 then rows else take (nat n) rows)"

definition sqlOffset :: "int \<Rightarrow> 'a list \<Rightarrow> 'a list" where
  "sqlOffset n rows = (if n < 0 then rows else drop (nat n) rows)"

text \<open>\<open>TypedError\<close> and \<open>ConstraintFailed\<close> of package sqlx.\<close>

definition errorText :: "error \<Rightarrow> string" where
  "errorText e = (case e of
       ErrNotFound \<Rightarrow> ''key not found''
     | ErrKeyType \<Rightarrow> ''key type mismatch''
     | ErrValueType \<Rightarrow> ''invalid value type''
     | ErrScan m \<Rightarrow> m
     | SqlError m \<Rightarrow> m)"

definition ConstraintFailed :: "error \<Rightarrow> string \<Rightarrow> string \<Rightarrow> bool" where
  "ConstraintFailed err constraint column =
     (let msg = constraint @ '' constraint failed: '' @ column
      in Contains (errorText err) msg)"

definition TypedError :: "error \<Rightarrow> error" where
  "TypedError err =
     (if ConstraintFailed err ''NOT NULL'' ''rkey.type'' then ErrKeyType else err)"

section \<open>The hash repository (package rhash): reads\<close>

text \<open>
  \<open>from rhash join rkey on kid = rkey.id and type = 4
    where key = ? and (etime is null or etime > ?)\<close>,
  the row source of \<open>sqlCount\<close>, \<open>sqlFields\<close>, \<open>sqlGet\<close>, \<open>sqlGetMany\<close>,
  \<open>sqlItems\<close>, \<open>sqlScan\<close> and \<open>sqlValues\<close>.
\<close>

definition hash_join :: "database \<Rightarrow> int \<Rightarrow> string \<Rightarrow> (rhash_row \<times> rkey_row) list" where
  "hash_join db now key =
     concat (map (\<lambda>h. map (Pair h)
                   (filter (\<lambda>k. h_kid h = k_id k \<and> k_type k = 4 \<and> k_key k = key \<and> live now k)
                           (rkey db)))
                 (rhash db))"

definition hash_rows :: "database \<Rightarrow> int \<Rightarrow> string \<Rightarrow> rhash_row list" where
  "hash_rows db now key = map fst (hash_join db now key)"

definition scanPageSize :: int where "scanPageSize = 10"

text \<open>\<open>Tx.count\<close>: \<open>select count(field) ... and field in (:fields)\<close>.\<close>

definition hash_count :: "database \<Rightarrow> int \<Rightarrow> string \<Rightarrow> string list \<Rightarrow> error + int" where
  "hash_count db now key flds =
     Inr (int (length (filter (\<lambda>h. h_field h \<in> set flds) (hash_rows db now key))))"

text \<open>\<open>sqlGet\<close>: \<open>select value ... and field = ?\<close>.\<close>

definition sqlGet_hash :: "database \<Rightarrow> int \<Rightarrow> string \<Rightarrow> string \<Rightarrow> bytes list" where
  "sqlGet_hash db now key field =
     map h_value (filter (\<lambda>h. h_field h = field) (hash_rows db now key))"

definition hash_Exists :: "database \<Rightarrow> int \<Rightarrow> string \<Rightarrow> string \<Rightarrow> error + bool" where
  "hash_Exists db now key field = Inr (sqlGet_hash db now key field \<noteq> [])"

definition hash_Fields :: "database \<Rightarrow> int \<Rightarrow> string \<Rightarrow> error + string list" where
  "hash_Fields db now key = Inr (map h_field (hash_rows db now key))"

definition hash_Get :: "database \<Rightarrow> int \<Rightarrow> string \<Rightarrow> string \<Rightarrow> error + bytes" where
  "hash_Get db now key field =
     (case sqlGet_hash db now key field of
        [] \<Rightarrow> Inl ErrNotFound
      | val # _ \<Rightarrow> Inr val)"

text \<open>
  \<open>Tx.GetMany\<close>.  With exactly one field the code runs \<open>sqlGet\<close>, whose rows have the
  single column \<open>value\<close>, and then scans every row into two destinations, which
  \<open>database/sql\<close> refuses; with more fields it runs \<open>sqlGetMany\<close>.
\<close>

definition items_map :: "rhash_row list \<Rightarrow> (string \<rightharpoonup> bytes)" where
  "items_map rows = fold (\<lambda>h items. items(h_field h \<mapsto> h_value h)) rows Map.empty"

definition hash_GetMany ::
  "database \<Rightarrow> int \<Rightarrow> string \<Rightarrow> string list \<Rightarrow> error + (string \<rightharpoonup> bytes)" where
  "hash_GetMany db now key flds =
     (if flds = [] then Inr Map.empty
      else if length flds = 1 then
        (case sqlGet_hash db now key (flds ! 0) of
           [] \<Rightarrow> Inr Map.empty
         | val # _ \<Rightarrow> Inl (ErrScan ''sql: expected 1 destination arguments in Scan, not 2''))
      else
        Inr (items_map (filter (\<lambda>h. h_field h \<in> set flds) (hash_rows db now key))))"

definition hash_Items :: "database \<Rightarrow> int \<Rightarrow> string \<Rightarrow> error + (string \<rightharpoonup> bytes)" where
  "hash_Items db now key = Inr (items_map (hash_rows db now key))"

text \<open>\<open>Tx.Len\<close>: \<open>select len from rkey where key = ? and type = 4 and (...)\<close>.\<close>

definition hash_Len :: "database \<Rightarrow> int \<Rightarrow> string \<Rightarrow> error + int" where
  "hash_Len db now key =
     (case map k_len (live_keys db now key 4) of
        [] \<Rightarrow> Inr 0
      | None # _ \<Rightarrow> Inl (ErrScan ''converting NULL to int is unsupported'')
      | Some n # _ \<Rightarrow> Inr n)"

definition hash_Values :: "database \<Rightarrow> int \<Rightarrow> string \<Rightarrow> error + bytes list" where
  "hash_Values db now key = Inr (map h_value (hash_rows db now key))"

record HashItem =
  it_id :: int
  Field :: string
  Value :: bytes

record ScanResult =
  Cursor :: int
  Items :: "HashItem list"

text \<open>
  \<open>Tx.Scan\<close>: a page of at most \<open>count\<close> rows whose \<open>rowid\<close> is above the cursor and
  whose field matches the pattern, in storage order (\<open>sqlScan\<close> has no \<open>ORDER BY\<close>);
  the new cursor is the largest \<open>rowid\<close> of the page, or 0.
\<close>

definition sqlScan_rows ::
  "engine \<Rightarrow> database \<Rightarrow> int \<Rightarrow> string \<Rightarrow> int \<Rightarrow> string \<Rightarrow> int \<Rightarrow> rhash_row list" where
  "sqlScan_rows eng db now key cursor pattern count =
     sqlLimit count
       (filter (\<lambda>h. h_rowid h > cursor \<and> globMatch eng (h_field h) pattern)
               (hash_rows db now key))"

text \<open>The closure \<open>scan\<close> of \<open>Tx.Scan\<close>: one row of the statement as a \<open>HashItem\<close>.\<close>

definition scanItem :: "rhash_row \<Rightarrow> HashItem" where
  "scanItem h = \<lparr>it_id = h_rowid h, Field = h_field h, Value = h_value h\<rparr>"

fun maxItemID :: "HashItem list \<Rightarrow> int \<Rightarrow> int" where
  "maxItemID [] maxID = maxID"
| "maxItemID (it # items) maxID = maxItemID items (if it_id it > maxID then it_id it else maxID)"

definition hash_Scan ::
  "engine \<Rightarrow> database \<Rightarrow> int \<Rightarrow> string \<Rightarrow> int \<Rightarrow> string \<Rightarrow> int \<Rightarrow> error + ScanResult" where
  "hash_Scan eng db now key cursor pattern count0 =
     (let count = (if count0 = 0 then scanPageSize else count0);
          items = map scanItem (sqlScan_rows eng db now key cursor pattern count);
          maxID = maxItemID items 0
      in Inr \<lparr>Cursor = maxID, Items = items\<rparr>)"

section \<open>The list repository (package rlist): reads\<close>

definition TAB :: string where "TAB = [CHR 0x09]"

definition sqlGet :: string where
  "sqlGet =
     ''\<newline>'' @
     TAB @ ''with elems as (\<newline>'' @
     TAB @ TAB @ ''select elem, row_number() over (order by pos asc) as rownum\<newline>'' @
     TAB @ TAB @ ''from rlist join rkey on kid = rkey.id and type = 2\<newline>'' @
     TAB @ TAB @ ''where key = ? and (etime is null or etime > ?)\<newline>'' @
     TAB @ '')\<newline>'' @
     TAB @ ''select elem\<newline>'' @
     TAB @ ''from elems\<newline>'' @
     TAB @ ''where rownum = ? + 1''"

text \<open>The same statement with the window ordered downwards.\<close>

definition sqlGetDesc :: string where
  "sqlGetDesc =
     ''\<newline>'' @
     TAB @ ''with elems as (\<newline>'' @
     TAB @ TAB @ ''select elem, row_number() over (order by pos desc) as rownum\<newline>'' @
     TAB @ TAB @ ''from rlist join rkey on kid = rkey.id and type = 2\<newline>'' @
     TAB @ TAB @ ''where key = ? and (etime is null or etime > ?)\<newline>'' @
     TAB @ '')\<newline>'' @
     TAB @ ''select elem\<newline>'' @
     TAB @ ''from elems\<newline>'' @
     TAB @ ''where rownum = ? + 1''"

datatype direction = Ascending | Descending

definition sqlGet_order :: "string \<Rightarrow> direction option" where
  "sqlGet_order query =
     (if query = sqlGet then Some Ascending
      else if query = sqlGetDesc then Some Descending
      else None)"

text \<open>
  \<open>from rlist join rkey on kid = rkey.id and type = 2
    where key = ? and (etime is null or etime > ?)\<close>
\<close>

definition list_join :: "database \<Rightarrow> int \<Rightarrow> string \<Rightarrow> (rlist_row \<times> rkey_row) list" where
  "list_join db now key =
     concat (map (\<lambda>l. map (Pair l)
                   (filter (\<lambda>k. l_kid l = k_id k \<and> k_type k = 2 \<and> k_key k = key \<and> live now k)
                           (rkey db)))
                 (rlist db))"

definition list_rows :: "database \<Rightarrow> int \<Rightarrow> string \<Rightarrow> rlist_row list" where
  "list_rows db now key = map fst (list_join db now key)"

text \<open>
  The rows of \<open>sqlGet\<close>: the joined rows are numbered from 1 in the order of the window,
  and the outer query keeps those whose number is \<open>? + 1\<close>.  The unique index on
  \<open>(kid, pos)\<close> leaves no ties; the model sorts stably.
\<close>

definition ordered_rows :: "direction \<Rightarrow> database \<Rightarrow> int \<Rightarrow> string \<Rightarrow> rlist_row list" where
  "ordered_rows dir db now key =
     (let joined = list_rows db now key
      in case dir of
           Ascending \<Rightarrow> sort_key l_pos joined
         | Descending \<Rightarrow> sort_key (\<lambda>l. - l_pos l) joined)"

definition sqlGet_rows :: "direction \<Rightarrow> database \<Rightarrow> int \<Rightarrow> string \<Rightarrow> int \<Rightarrow> bytes list" where
  "sqlGet_rows dir db now key idx =
     (let ordered = ordered_rows dir db now key;
          elems = zip (map l_elem ordered) [1 ..< Suc (length ordered)]
      in map fst (filter (\<lambda>(elem, rownum). int rownum = idx + 1) elems))"

text \<open>Go's \<open>int\<close> is 64 bits wide on the supported platforms; \<open>int64\<close> wraps a result.\<close>

definition int64 :: "int \<Rightarrow> int" where
  "int64 x = (x + 2 ^ 63) mod 2 ^ 64 - 2 ^ 63"

definition is_int64 :: "int \<Rightarrow> bool" where
  "is_int64 x = (- (2 ^ 63) \<le> x \<and> x < 2 ^ 63)"

definition list_Get :: "database \<Rightarrow> int \<Rightarrow> string \<Rightarrow> int \<Rightarrow> error + bytes" where
  "list_Get db now key idx0 =
     (let (query, idx) =
            (if idx0 < 0 then (Replace sqlGet Asc Desc 1, int64 (int64 (- idx0) - 1))
             else (sqlGet, idx0))
      in case sqlGet_order query of
           None \<Rightarrow> Inl (SqlError ''syntax error'')
         | Some dir \<Rightarrow>
             (case sqlGet_rows dir db now key idx of
                [] \<Rightarrow> Inl ErrNotFound
              | val # _ \<Rightarrow> Inr val))"

definition list_Len :: "database \<Rightarrow> int \<Rightarrow> string \<Rightarrow> error + int" where
  "list_Len db now key =
     (case map k_len (live_keys db now key 2) of
        [] \<Rightarrow> Inr 0
      | None # _ \<Rightarrow> Inl (TypedError (ErrScan ''converting NULL to int is unsupported''))
      | Some n # _ \<Rightarrow> Inr n)"

text \<open>
  \<open>LIMIT\<close> and \<open>OFFSET\<close> over values that may be \<open>NULL\<close>: the engine decides what a
  \<open>NULL\<close> bound means.
\<close>

definition limitOffset :: "engine \<Rightarrow> int option \<Rightarrow> int option \<Rightarrow> 'a list \<Rightarrow> error + 'a list" where
  "limitOffset eng lmt off rows =
     (if (lmt = None \<or> off = None) \<and> nullLimit eng \<noteq> None then Inl (the (nullLimit eng))
      else
        (let skipped = (case off of None \<Rightarrow> rows | Some n \<Rightarrow> sqlOffset n rows)
         in Inr (case lmt of None \<Rightarrow> skipped | Some n \<Rightarrow> sqlLimit n skipped)))"

text \<open>\<open>Tx.Range\<close>, with the statement written in the function body.\<close>

definition list_Range ::
  "engine \<Rightarrow> database \<Rightarrow> int \<Rightarrow> string \<Rightarrow> int \<Rightarrow> int \<Rightarrow> error + bytes list" where
  "list_Range eng db now key start stop =
     (if start > stop \<and> (start > 0 \<and> stop > 0 \<or> start < 0 \<and> stop < 0) then Inr []
      else
        (let curkey = (case map k_id (live_keys db now key 2) of
                         [] \<Rightarrow> None | i # _ \<Rightarrow> Some i);
             counts = (case curkey of None \<Rightarrow> None
                       | Some i \<Rightarrow> (case map k_len (filter (\<lambda>k. k_id k = i) (rkey db)) of
                                     [] \<Rightarrow> None | n # _ \<Rightarrow> n));
             bstart = (if start < 0 then map_option (\<lambda>n. n + start) counts else Some start);
             bstop = (if stop < 0 then map_option (\<lambda>n. n + stop) counts else Some stop);
             lmt = (case (bstop, bstart) of (Some b, Some a) \<Rightarrow> Some (b - a + 1) | _ \<Rightarrow> None);
             rows = (case curkey of None \<Rightarrow> []
                     | Some i \<Rightarrow> sort_key l_pos (filter (\<lambda>l. l_kid l = i) (rlist db)))
         in case limitOffset eng lmt bstart rows of
              Inl e \<Rightarrow> Inl (TypedError e)
            | Inr rs \<Rightarrow> Inr (map l_elem rs)))"

section \<open>The hash repository (package rhash): writes\<close>

text \<open>
  Package \<open>core\<close> is not among the sources.  Its two functions that the writes call,
  \<open>IsValueType\<close> and \<open>ToBytes\<close>, are parameters, over any type \<open>'v\<close> of Go values.
\<close>

record 'v core =
  IsValueType :: "'v \<Rightarrow> bool"
  ToBytes :: "'v \<Rightarrow> error + bytes"

text \<open>The next \<open>rowid\<close> or serial id: one above the largest in the table.\<close>

definition nextId :: "int list \<Rightarrow> int" where
  "nextId ids = fold max ids 0 + 1"

text \<open>
  \<open>sqlSet1\<close>: insert the key as a hash with version 1 and length 0, or on a conflict
  on \<open>key\<close> set \<open>type\<close> to \<open>case when type = excluded.type then type else null end\<close>,
  add 1 to \<open>version\<close> and set \<open>mtime\<close>; return the id.  Writing \<open>NULL\<close> to the
  \<open>NOT NULL\<close> column \<open>type\<close> fails the statement, which then changes nothing.
\<close>

definition sqlSet1_run :: "engine \<Rightarrow> database \<Rightarrow> string \<Rightarrow> int \<Rightarrow> error + int \<times> database" where
  "sqlSet1_run eng db key now =
     (case filter (\<lambda>k. k_key k = key) (rkey db) of
        [] \<Rightarrow>
          (let newId = nextId (map k_id (rkey db))
           in Inr (newId, db\<lparr>rkey := rkey db @
                [\<lparr>k_id = newId, k_key = key, k_type = 4, k_version = 1, k_etime = None,
                  k_mtime = now, k_len = Some 0\<rparr>]\<rparr>))
      | old # _ \<Rightarrow>
          (case (if k_type old = 4 then Some (k_type old) else None) of
             None \<Rightarrow> Inl (SqlError (notNullText eng ''rkey.type''))
           | Some t \<Rightarrow>
               Inr (k_id old, db\<lparr>rkey := map (\<lambda>k. if k_key k = key
                       then k\<lparr>k_type := t, k_version := k_version k + 1, k_mtime := now\<rparr>
                       else k) (rkey db)\<rparr>)))"

text \<open>
  The trigger \<open>rhash_on_insert\<close> of the schema, before every insert into \<open>rhash\<close>: when
  the hash has no such field yet, the length of the key grows by one.
\<close>

definition rhash_on_insert :: "database \<Rightarrow> int \<Rightarrow> string \<Rightarrow> database" where
  "rhash_on_insert db kid field =
     (if \<not> (\<exists>h\<in>set (rhash db). h_kid h = kid \<and> h_field h = field)
      then db\<lparr>rkey := map (\<lambda>k. if k_id k = kid
                  then k\<lparr>k_len := map_option (\<lambda>n. n + 1) (k_len k)\<rparr> else k) (rkey db)\<rparr>
      else db)"

text \<open>\<open>sqlSet2\<close>: insert the field, or on a conflict on \<open>(kid, field)\<close> set its value.\<close>

definition sqlSet2_run :: "database \<Rightarrow> int \<Rightarrow> string \<Rightarrow> bytes \<Rightarrow> database" where
  "sqlSet2_run db0 kid field val =
     (let db = rhash_on_insert db0 kid field
      in if \<exists>h\<in>set (rhash db). h_kid h = kid \<and> h_field h = field
         then db\<lparr>rhash := map (\<lambda>h. if h_kid h = kid \<and> h_field h = field
                    then h\<lparr>h_value := val\<rparr> else h) (rhash db)\<rparr>
         else db\<lparr>rhash := rhash db @
                [\<lparr>h_rowid = nextId (map h_rowid (rhash db)), h_kid = kid, h_field = field,
                  h_value = val\<rparr>]\<rparr>)"

text \<open>
  \<open>Tx.set\<close>.  An operation is modelled at one instant \<open>now\<close>.  A Go \<open>error\<close> result is
  an \<open>error option\<close>, \<open>None\<close> for \<open>nil\<close>; the database returned is the state the
  transaction is left in.  On SQLite \<open>returning id\<close> always yields a row, so the branch
  for \<open>sql.ErrNoRows\<close> is not taken.
\<close>

definition hash_set ::
  "engine \<Rightarrow> 'v core \<Rightarrow> database \<Rightarrow> int \<Rightarrow> string \<Rightarrow> string \<Rightarrow> 'v \<Rightarrow> error option \<times> database" where
  "hash_set eng core db now key field value =
     (case ToBytes core value of
        Inl err \<Rightarrow> (Some err, db)
      | Inr val \<Rightarrow>
          (case sqlSet1_run eng db key now of
             Inl err \<Rightarrow> (Some (TypedError err), db)
           | Inr (keyId, db1) \<Rightarrow> (None, sqlSet2_run db1 keyId field val)))"

definition hash_Set ::
  "engine \<Rightarrow> 'v core \<Rightarrow> database \<Rightarrow> int \<Rightarrow> string \<Rightarrow> string \<Rightarrow> 'v \<Rightarrow> (error + bool) \<times> database" where
  "hash_Set eng core db now key field value =
     (if \<not> IsValueType core value then (Inl ErrValueType, db)
      else case hash_count db now key [field] of
             Inl err \<Rightarrow> (Inl err, db)
           | Inr existCount \<Rightarrow>
               (case hash_set eng core db now key field value of
                  (Some err, db') \<Rightarrow> (Inl err, db')
                | (None, db') \<Rightarrow> (Inr (existCount = 0), db')))"

text \<open>
  \<open>Tx.SetMany\<close>.  The Go map is a list of pairs with distinct fields, in the order the
  loops happen to visit them.
\<close>

fun setEach ::
  "engine \<Rightarrow> 'v core \<Rightarrow> int \<Rightarrow> string \<Rightarrow> (string \<times> 'v) list \<Rightarrow> database \<Rightarrow> error option \<times> database" where
  "setEach eng core now key [] db = (None, db)"
| "setEach eng core now key ((field, val) # items) db =
     (case hash_set eng core db now key field val of
        (Some err, db') \<Rightarrow> (Some err, db')
      | (None, db') \<Rightarrow> setEach eng core now key items db')"

definition hash_SetMany ::
  "engine \<Rightarrow> 'v core \<Rightarrow> database \<Rightarrow> int \<Rightarrow> string \<Rightarrow> (string \<times> 'v) list \<Rightarrow> (error + int) \<times> database" where
  "hash_SetMany eng core db now key items =
     (if \<exists>val\<in>set (map snd items). \<not> IsValueType core val then (Inl ErrValueType, db)
      else
        (let flds = map fst items
         in case hash_count db now key flds of
              Inl err \<Rightarrow> (Inl err, db)
            | Inr existCount \<Rightarrow>
                (case setEach eng core now key items db of
                   (Some err, db') \<Rightarrow> (Inl err, db')
                 | (None, db') \<Rightarrow> (Inr (int (length items) - existCount), db'))))"

definition hash_SetNotExists ::
  "engine \<Rightarrow> 'v core \<Rightarrow> database \<Rightarrow> int \<Rightarrow> string \<Rightarrow> string \<Rightarrow> 'v \<Rightarrow> (error + bool) \<times> database" where
  "hash_SetNotExists eng core db now key field value =
     (if \<not> IsValueType core value then (Inl ErrValueType, db)
      else case hash_Exists db now key field of
             Inl err \<Rightarrow> (Inl err, db)
           | Inr exist \<Rightarrow>
               if exist then (Inr False, db)
               else (case hash_set eng core db now key field value of
                       (Some err, db') \<Rightarrow> (Inl err, db')
                     | (None, db') \<Rightarrow> (Inr True, db')))"

text \<open>
  \<open>sqlDelete1\<close>: delete the rows of the given fields under the id of the live hash
  key (no row when the subquery is \<open>NULL\<close>); the result is the number of rows deleted.
  No trigger of the schema fires on a delete from \<open>rhash\<close>.
\<close>

definition hash_key_id :: "database \<Rightarrow> int \<Rightarrow> string \<Rightarrow> int option" where
  "hash_key_id db now key =
     (case map k_id (live_keys db now key 4) of [] \<Rightarrow> None | i # _ \<Rightarrow> Some i)"

definition sqlDelete1_run :: "database \<Rightarrow> int \<Rightarrow> string \<Rightarrow> string list \<Rightarrow> int \<times> database" where
  "sqlDelete1_run db now key flds =
     (let kid = hash_key_id db now key;
          deleted = (\<lambda>h. Some (h_kid h) = kid \<and> h_field h \<in> set flds)
      in (int (length (filter deleted (rhash db))),
          db\<lparr>rhash := filter (\<lambda>h. \<not> deleted h) (rhash db)\<rparr>))"

text \<open>\<open>sqlDelete2\<close>, with the arguments \<open>now, count, key, now\<close>.\<close>

definition sqlDelete2_run :: "database \<Rightarrow> int \<Rightarrow> int \<Rightarrow> string \<Rightarrow> database" where
  "sqlDelete2_run db now count key =
     db\<lparr>rkey := map (\<lambda>k. if k_key k = key \<and> k_type k = 4 \<and> live now k
            then k\<lparr>k_version := k_version k + 1, k_mtime := now,
                   k_len := map_option (\<lambda>n. n - count) (k_len k)\<rparr>
            else k) (rkey db)\<rparr>"

definition hash_Delete ::
  "database \<Rightarrow> int \<Rightarrow> string \<Rightarrow> string list \<Rightarrow> (error + int) \<times> database" where
  "hash_Delete db now key flds =
     (if length flds = 0 then (Inr 0, db)
      else
        (let (n, db1) = sqlDelete1_run db now key flds
         in if n = 0 then (Inr 0, db1)
            else (let count = n in (Inr count, sqlDelete2_run db1 now count key))))"

section \<open>The list repository (package rlist): push\<close>

text \<open>
  \<open>sqlPush\<close>: as \<open>sqlSet1\<close>, for type 2, with length 1 at first and one more on a
  conflict; it returns the id and the length.
\<close>

definition sqlPush_run ::
  "engine \<Rightarrow> database \<Rightarrow> string \<Rightarrow> int \<Rightarrow> error + int \<times> int option \<times> database" where
  "sqlPush_run eng db key now =
     (case filter (\<lambda>k. k_key k = key) (rkey db) of
        [] \<Rightarrow>
          (let newId = nextId (map k_id (rkey db))
           in Inr (newId, Some 1, db\<lparr>rkey := rkey db @
                [\<lparr>k_id = newId, k_key = key, k_type = 2, k_version = 1, k_etime = None,
                  k_mtime = now, k_len = Some 1\<rparr>]\<rparr>))
      | old # _ \<Rightarrow>
          (case (if k_type old = 2 then Some (k_type old) else None) of
             None \<Rightarrow> Inl (SqlError (notNullText eng ''rkey.type''))
           | Some t \<Rightarrow>
               Inr (k_id old, map_option (\<lambda>n. n + 1) (k_len old),
                    db\<lparr>rkey := map (\<lambda>k. if k_key k = key
                       then k\<lparr>k_type := t, k_version := k_version k + 1, k_mtime := now,
                              k_len := map_option (\<lambda>n. n + 1) (k_len k)\<rparr>
                       else k) (rkey db)\<rparr>)))"

text \<open>
  \<open>sqlPushBack\<close> and \<open>sqlPushFront\<close>: the new position is \<open>coalesce(max(pos)+1, 0)\<close>,
  or \<open>coalesce(min(pos)-1, 0)\<close>, over the rows of the key.
\<close>

definition sqlPushBack_run :: "database \<Rightarrow> int \<Rightarrow> bytes \<Rightarrow> database" where
  "sqlPushBack_run db kid elem =
     (let newPos = (case map l_pos (filter (\<lambda>l. l_kid l = kid) (rlist db)) of
                      [] \<Rightarrow> 0 | p # ps \<Rightarrow> fold max ps p + 1)
      in db\<lparr>rlist := rlist db @ [\<lparr>l_kid = kid, l_pos = newPos, l_elem = elem\<rparr>]\<rparr>)"

definition sqlPushFront_run :: "database \<Rightarrow> int \<Rightarrow> bytes \<Rightarrow> database" where
  "sqlPushFront_run db kid elem =
     (let newPos = (case map l_pos (filter (\<lambda>l. l_kid l = kid) (rlist db)) of
                      [] \<Rightarrow> 0 | p # ps \<Rightarrow> fold min ps p - 1)
      in db\<lparr>rlist := rlist db @ [\<lparr>l_kid = kid, l_pos = newPos, l_elem = elem\<rparr>]\<rparr>)"

definition list_push ::
  "engine \<Rightarrow> 'v core \<Rightarrow> database \<Rightarrow> int \<Rightarrow> string \<Rightarrow> 'v \<Rightarrow> (database \<Rightarrow> int \<Rightarrow> bytes \<Rightarrow> database)
     \<Rightarrow> (error + int) \<times> database" where
  "list_push eng core db now key elem query =
     (case ToBytes core elem of
        Inl err \<Rightarrow> (Inl err, db)
      | Inr elb \<Rightarrow>
          (case sqlPush_run eng db key now of
             Inl err \<Rightarrow> (Inl (TypedError err), db)
           | Inr (keyID, len, db1) \<Rightarrow>
               (case len of
                  None \<Rightarrow> (Inl (TypedError (ErrScan ''converting NULL to int is unsupported'')), db1)
                | Some llen \<Rightarrow> (Inr llen, query db1 keyID elb))))"

definition list_PushBack ::
  "engine \<Rightarrow> 'v core \<Rightarrow> database \<Rightarrow> int \<Rightarrow> string \<Rightarrow> 'v \<Rightarrow> (error + int) \<times> database" where
  "list_PushBack eng core db now key elem = list_push eng core db now key elem sqlPushBack_run"

definition list_PushFront ::
  "engine \<Rightarrow> 'v core \<Rightarrow> database \<Rightarrow> int \<Rightarrow> string \<Rightarrow> 'v \<Rightarrow> (error + int) \<times> database" where
  "list_PushFront eng core db now key elem = list_push eng core db now key elem sqlPushFront_run"

section \<open>The transaction envelope (\<open>DB.execTx\<close>)\<close>

text \<open>
  The two handles and the calls made on them are recorded in a trace.  What
  \<open>database/sql\<close> and the driver answer is given from outside: whether \<open>BeginTx\<close> and
  \<open>Commit\<close> fail.  The closure \<open>f\<close> gets the transaction (wrapped for PostgreSQL) and
  the state the transaction sees; it returns an error or \<open>nil\<close>, or panics, and leaves the
  transaction's state behind.  A commit makes that state the database; a rollback drops
  it; the deferred \<open>Rollback\<close> after a commit does nothing.
\<close>

datatype handle = RW | RO

record TxOptions =
  ReadOnly :: bool

datatype call = BeginTx handle "TxOptions option" | Commit | Rollback

datatype outcome = Returns "error option" | Panics string

record sqlenv =
  beginErr :: "error option"
  commitErr :: "error option"

definition execTx ::
  "string \<Rightarrow> sqlenv \<Rightarrow> bool \<Rightarrow> (txkind \<Rightarrow> database \<Rightarrow> outcome \<times> database) \<Rightarrow> database
     \<Rightarrow> outcome \<times> database \<times> call list" where
  "execTx driver env writable f db =
     (let opts = (if driver = DriverPostgres \<and> \<not> writable
                  then Some \<lparr>ReadOnly = True\<rparr> else None);
          begin = (if writable then BeginTx RW opts else BeginTx RO opts)
      in case beginErr env of
           Some err \<Rightarrow> (Returns (Some err), db, [begin])
         | None \<Rightarrow>
             (let tx = (if driver = DriverPostgres then PostgresTx else RawTx)
              in case f tx db of
                   (Panics p, work) \<Rightarrow> (Panics p, db, [begin, Rollback])
                 | (Returns (Some err), work) \<Rightarrow> (Returns (Some err), db, [begin, Rollback])
                 | (Returns None, work) \<Rightarrow>
                     (case commitErr env of
                        None \<Rightarrow> (Returns None, work, [begin, Commit, Rollback])
                      | Some err \<Rightarrow> (Returns (Some err), db, [begin, Commit, Rollback]))))"

definition Update ::
  "string \<Rightarrow> sqlenv \<Rightarrow> (txkind \<Rightarrow> database \<Rightarrow> outcome \<times> database) \<Rightarrow> database
     \<Rightarrow> outcome \<times> database \<times> call list" where
  "Update driver env f db = execTx driver env True f db"

definition View ::
  "string \<Rightarrow> sqlenv \<Rightarrow> (txkind \<Rightarrow> database \<Rightarrow> outcome \<times> database) \<Rightarrow> database
     \<Rightarrow> outcome \<times> database \<times> call list" where
  "View driver env f db = execTx driver env False f db"

section \<open>The statements the hash repository sends\<close>

text \<open>The arguments of a statement are Go values of type \<open>any\<close>: here texts and integers.\<close>

datatype arg = AString string | AInt int

definition sqlDelete1 :: string where
  "sqlDelete1 =
     ''\<newline>'' @
     TAB @ ''delete from rhash\<newline>'' @
     TAB @ ''where kid = (\<newline>'' @
     TAB @ TAB @ TAB @ ''select id from rkey\<newline>'' @
     TAB @ TAB @ TAB @ ''where key = ? and type = 4 and (etime is null or etime > ?)\<newline>'' @
     TAB @ TAB @ '') and field in (:fields)''"

definition sqlScan :: string where
  "sqlScan =
     ''\<newline>'' @
     TAB @ ''select rhash.rowid, field, value\<newline>'' @
     TAB @ ''from rhash join rkey on kid = rkey.id and type = 4\<newline>'' @
     TAB @ ''where\<newline>'' @
     TAB @ TAB @ ''key = ? and (etime is null or etime > ?)\<newline>'' @
     TAB @ TAB @ ''and rhash.rowid > ? and field glob ?\<newline>'' @
     TAB @ ''limit ?''"

text \<open>
  The first statement of \<open>Tx.Delete\<close>, as it reaches the driver: the text and the
  arguments of \<open>tx.tx.Exec(query, args...)\<close>.  \<open>Delete\<close> calls \<open>ConvertPlaceholders\<close>
  itself, before the transaction sees the query.
\<close>

definition hash_Delete_stmt :: "txkind \<Rightarrow> string \<Rightarrow> int \<Rightarrow> string list \<Rightarrow> string \<times> arg list" where
  "hash_Delete_stmt tx key now flds =
     (let (query, fieldArgs) = ExpandIn sqlDelete1 '':fields'' (map AString flds);
          query = ConvertPlaceholders query;
          args = [AString key, AInt now] @ fieldArgs
      in tx_Query tx query args)"

text \<open>The statement of \<open>Tx.Scan\<close>, as it reaches the driver.\<close>

definition hash_Scan_stmt ::
  "txkind \<Rightarrow> string \<Rightarrow> int \<Rightarrow> int \<Rightarrow> string \<Rightarrow> int \<Rightarrow> string \<times> arg list" where
  "hash_Scan_stmt tx key now cursor pattern count =
     (let count = (if count = 0 then scanPageSize else count);
          args = [AString key, AInt now, AInt cursor, AString pattern, AInt count]
      in tx_Query tx sqlScan args)"

section \<open>The store operations of sets and sorted sets\<close>

text \<open>
  Modelled from the spec: the repositories of sets (\<open>rset\<close>) and sorted sets (\<open>rzset\<close>)
  are not among the sources, which hold only the tests of the commands
  \<open>sinterstore\<close> and \<open>zinterstore\<close>.  The definitions of this section follow the
  specification's description of the combinators and of the store operations, and the
  outcomes those tests assert.  A set is read as the list of its elements without
  repetition, a sorted set as the list of its elements with their scores; a key that is
  missing, expired or of another type has no elements.
\<close>

definition set_items :: "database \<Rightarrow> int \<Rightarrow> string \<Rightarrow> bytes list" where
  "set_items db now key =
     remdups (concat (map (\<lambda>k. map e_elem (filter (\<lambda>r. e_kid r = k_id k) (rset db)))
                          (live_keys db now key TypeSet)))"

text \<open>Modelled from the spec: \<open>diff(keys)\<close>, the elements of the first key that are in no other.\<close>

definition set_Diff :: "database \<Rightarrow> int \<Rightarrow> string list \<Rightarrow> bytes list" where
  "set_Diff db now keys =
     (case keys of
        [] \<Rightarrow> []
      | k # ks \<Rightarrow> filter (\<lambda>e. e \<notin> set (concat (map (set_items db now) ks)))
                         (set_items db now k))"

text \<open>
  Modelled from the spec: \<open>inter(keys)\<close>, the elements present in all keys; empty when a
  key is missing or of another type.
\<close>

definition set_Inter :: "database \<Rightarrow> int \<Rightarrow> string list \<Rightarrow> bytes list" where
  "set_Inter db now keys =
     (case keys of
        [] \<Rightarrow> []
      | k # ks \<Rightarrow> filter (\<lambda>e. list_all (\<lambda>k'. e \<in> set (set_items db now k')) ks)
                         (set_items db now k))"

text \<open>
  Modelled from the spec: \<open>union(keys)\<close>, the union across all keys; a key of another
  type is skipped.
\<close>

definition set_Union :: "database \<Rightarrow> int \<Rightarrow> string list \<Rightarrow> bytes list" where
  "set_Union db now keys = remdups (concat (map (set_items db now) keys))"

text \<open>
  Modelled from the spec: the elements of a sorted set with their scores, each score
  multiplied by the weight of its key.
\<close>

definition zset_items :: "database \<Rightarrow> int \<Rightarrow> rat \<Rightarrow> string \<Rightarrow> (bytes \<times> rat) list" where
  "zset_items db now weight key =
     concat (map (\<lambda>k. map (\<lambda>r. (z_elem r, weight * z_score r))
                          (filter (\<lambda>r. z_kid r = k_id k) (rzset db)))
                 (live_keys db now key TypeZSet))"

text \<open>Modelled from the spec: \<open>aggregate\<close> is one of sum, min and max and folds the scores.\<close>

datatype aggregate = AggSum | AggMin | AggMax

definition combine :: "aggregate \<Rightarrow> rat \<Rightarrow> rat \<Rightarrow> rat" where
  "combine agg a b = (case agg of AggSum \<Rightarrow> a + b | AggMin \<Rightarrow> min a b | AggMax \<Rightarrow> max a b)"

definition fold_scores :: "aggregate \<Rightarrow> rat list \<Rightarrow> rat" where
  "fold_scores agg scores = (case scores of [] \<Rightarrow> 0 | s # ss \<Rightarrow> foldl (combine agg) s ss)"

text \<open>Modelled from the spec: one weight per key, 1 by default.\<close>

definition weighted_sets ::
  "database \<Rightarrow> int \<Rightarrow> string list \<Rightarrow> rat list \<Rightarrow> (bytes \<times> rat) list list" where
  "weighted_sets db now keys weights =
     map (\<lambda>(key, weight). zset_items db now weight key)
         (zip keys (if weights = [] then replicate (length keys) 1 else weights))"

definition scores_of :: "bytes \<Rightarrow> (bytes \<times> rat) list list \<Rightarrow> rat list" where
  "scores_of e sets = concat (map (\<lambda>items. map snd (filter (\<lambda>it. fst it = e) items)) sets)"

text \<open>
  Modelled from the spec: the keys of \<open>interStore\<close> participate, a missing or wrong-typed
  key contributing an empty set; the result holds the elements of all keys.
\<close>

definition zset_Inter ::
  "database \<Rightarrow> int \<Rightarrow> string list \<Rightarrow> rat list \<Rightarrow> aggregate \<Rightarrow> (bytes \<times> rat) list" where
  "zset_Inter db now keys weights agg =
     (let sets = weighted_sets db now keys weights
      in case sets of
           [] \<Rightarrow> []
         | s # ss \<Rightarrow>
             map (\<lambda>e. (e, fold_scores agg (scores_of e sets)))
                 (filter (\<lambda>e. list_all (\<lambda>items. e \<in> set (map fst items)) ss)
                         (remdups (map fst s))))"

text \<open>Modelled from the spec: the result of \<open>unionStore\<close> holds the elements of any key.\<close>

definition zset_Union ::
  "database \<Rightarrow> int \<Rightarrow> string list \<Rightarrow> rat list \<Rightarrow> aggregate \<Rightarrow> (bytes \<times> rat) list" where
  "zset_Union db now keys weights agg =
     (let sets = weighted_sets db now keys weights
      in map (\<lambda>e. (e, fold_scores agg (scores_of e sets)))
             (remdups (concat (map (map fst) sets))))"

text \<open>
  Modelled from the spec: deleting a key removes its row and, by cascade, its typed
  rows.
\<close>

definition delete_key :: "database \<Rightarrow> string \<Rightarrow> database" where
  "delete_key db key =
     (let gone = map k_id (filter (\<lambda>k. k_key k = key) (rkey db))
      in \<lparr>rkey = filter (\<lambda>k. k_key k \<noteq> key) (rkey db),
          rstring = filter (\<lambda>r. s_kid r \<notin> set gone) (rstring db),
          rlist = filter (\<lambda>r. l_kid r \<notin> set gone) (rlist db),
          rset = filter (\<lambda>r. e_kid r \<notin> set gone) (rset db),
          rhash = filter (\<lambda>r. h_kid r \<notin> set gone) (rhash db),
          rzset = filter (\<lambda>r. z_kid r \<notin> set gone) (rzset db)\<rparr>)"

text \<open>Modelled from the spec: the typed rows of a key are replaced by the result.\<close>

definition replace_set :: "int \<Rightarrow> bytes list \<Rightarrow> database \<Rightarrow> database" where
  "replace_set kid elems db =
     db\<lparr>rset := filter (\<lambda>r. e_kid r \<noteq> kid) (rset db)
                  @ map (\<lambda>e. \<lparr>e_kid = kid, e_elem = e\<rparr>) elems\<rparr>"

definition replace_zset :: "int \<Rightarrow> (bytes \<times> rat) list \<Rightarrow> database \<Rightarrow> database" where
  "replace_zset kid items db =
     db\<lparr>rzset := filter (\<lambda>r. z_kid r \<noteq> kid) (rzset db)
                   @ map (\<lambda>(e, s). \<lparr>z_kid = kid, z_elem = e, z_score = s\<rparr>) items\<rparr>"

text \<open>
  Modelled from the spec: a store operation computes its result and replaces \<open>dest\<close> with
  it, returning the number of elements stored.  When \<open>dest\<close> exists with another type, an
  empty result leaves everything as it was and returns 0, and a result that would
  overwrite it is refused with \<open>ErrKeyType\<close>, the transaction being rolled back.  When
  \<open>dest\<close> exists with the type of the operation it is overwritten, its version
  incremented and its length set.  Otherwise (no row, or an expired one, which a writer
  replaces by a fresh key) a result that is not empty creates the key.
\<close>

definition store ::
  "int \<Rightarrow> (int \<Rightarrow> 'a list \<Rightarrow> database \<Rightarrow> database) \<Rightarrow> database \<Rightarrow> int \<Rightarrow> string \<Rightarrow> 'a list
     \<Rightarrow> (error + int) \<times> database" where
  "store t replace db now dest result =
     (case filter (\<lambda>k. k_key k = dest \<and> live now k) (rkey db) of
        old # others \<Rightarrow>
          if k_type old \<noteq> t
          then (if result = [] then (Inr 0, db) else (Inl ErrKeyType, db))
          else (Inr (int (length result)),
                replace (k_id old) result
                  (db\<lparr>rkey := map (\<lambda>k. if k_id k = k_id old
                                then k\<lparr>k_version := k_version k + 1, k_mtime := now,
                                       k_len := Some (int (length result))\<rparr>
                                else k) (rkey db)\<rparr>))
      | [] \<Rightarrow>
          if result = [] then (Inr 0, db)
          else (let db1 = delete_key db dest;
                    newId = nextId (map k_id (rkey db1))
                in (Inr (int (length result)),
                    replace newId result
                      (db1\<lparr>rkey := rkey db1 @
                         [\<lparr>k_id = newId, k_key = dest, k_type = t, k_version = 1,
                           k_etime = None, k_mtime = now,
                           k_len = Some (int (length result))\<rparr>]\<rparr>))))"

text \<open>Modelled from the spec: the three store operations of sets.\<close>

definition set_DiffStore ::
  "database \<Rightarrow> int \<Rightarrow> string \<Rightarrow> string list \<Rightarrow> (error + int) \<times> database" where
  "set_DiffStore db now dest keys = store TypeSet replace_set db now dest (set_Diff db now keys)"

definition set_InterStore ::
  "database \<Rightarrow> int \<Rightarrow> string \<Rightarrow> string list \<Rightarrow> (error + int) \<times> database" where
  "set_InterStore db now dest keys = store TypeSet replace_set db now dest (set_Inter db now keys)"

definition set_UnionStore ::
  "database \<Rightarrow> int \<Rightarrow> string \<Rightarrow> string list \<Rightarrow> (error + int) \<times> database" where
  "set_UnionStore db now dest keys = store TypeSet replace_set db now dest (set_Union db now keys)"

text \<open>Modelled from the spec: the two store operations of sorted sets.\<close>

definition zset_InterStore ::
  "database \<Rightarrow> int \<Rightarrow> string \<Rightarrow> string list \<Rightarrow> rat list \<Rightarrow> aggregate
     \<Rightarrow> (error + int) \<times> database" where
  "zset_InterStore db now dest keys weights agg =
     store TypeZSet replace_zset db now dest (zset_Inter db now keys weights agg)"

definition zset_UnionStore ::
  "database \<Rightarrow> int \<Rightarrow> string \<Rightarrow> string list \<Rightarrow> rat list \<Rightarrow> aggregate
     \<Rightarrow> (error + int) \<times> database" where
  "zset_UnionStore db now dest keys weights agg =
     store TypeZSet replace_zset db now dest (zset_Union db now keys weights agg)"

text \<open>
  The destination exists with another type: a live row of \<open>rkey\<close> is named \<open>dest\<close>, and
  no such row has the type \<open>t\<close>.
\<close>

definition wrong_typed :: "database \<Rightarrow> int \<Rightarrow> string \<Rightarrow> int \<Rightarrow> bool" where
  "wrong_typed db now dest t =
     (filter (\<lambda>k. k_key k = dest \<and> live now k) (rkey db) \<noteq> []
      \<and> filter (\<lambda>k. k_key k = dest \<and> live now k \<and> k_type k = t) (rkey db) = [])"

text \<open>
  The databases of the tests: the sets \<open>key1\<close> and \<open>key2\<close> (equal, or disjoint), the
  sorted set \<open>zkey\<close>, and the string \<open>dest\<close> with the value \<open>old\<close>.
\<close>

definition store_db :: "bytes \<Rightarrow> database" where
  "store_db second = emptyDB
     \<lparr>rkey := [\<lparr>k_id = 1, k_key = ''key1'', k_type = 3, k_version = 1,
                k_etime = None, k_mtime = 100, k_len = Some 1\<rparr>,
               \<lparr>k_id = 2, k_key = ''key2'', k_type = 3, k_version = 1,
                k_etime = None, k_mtime = 100, k_len = Some 1\<rparr>,
               \<lparr>k_id = 3, k_key = ''zkey'', k_type = 5, k_version = 1,
                k_etime = None, k_mtime = 100, k_len = Some 1\<rparr>,
               \<lparr>k_id = 4, k_key = ''dest'', k_type = 1, k_version = 1,
                k_etime = None, k_mtime = 100, k_len = None\<rparr>],
      rset := [\<lparr>e_kid = 1, e_elem = ''one''\<rparr>, \<lparr>e_kid = 2, e_elem = second\<rparr>],
      rzset := [\<lparr>z_kid = 3, z_elem = ''one'', z_score = 1\<rparr>],
      rstring := [\<lparr>s_kid = 4, s_value = ''old''\<rparr>]\<rparr>"

section \<open>Predicates and example data of the properties\<close>

text \<open>
  A key is logically absent at time \<open>now\<close> when every \<open>rkey\<close> row of that name has an
  \<open>etime\<close> that is not after \<open>now\<close>; a key with no row at all is the special case.
\<close>

definition logically_absent :: "database \<Rightarrow> int \<Rightarrow> string \<Rightarrow> bool" where
  "logically_absent db now key =
     (\<forall>k\<in>set (rkey db). k_key k = key \<longrightarrow>
        (case k_etime k of None \<Rightarrow> False | Some e \<Rightarrow> e \<le> now))"

text \<open>A hash whose key expired at time 500.\<close>

definition expired_hash_db :: database where
  "expired_hash_db = emptyDB
     \<lparr>rkey := [\<lparr>k_id = 1, k_key = ''person'', k_type = 4, k_version = 2,
                k_etime = Some 500, k_mtime = 100, k_len = Some 1\<rparr>],
      rhash := [\<lparr>h_rowid = 1, h_kid = 1, h_field = ''name'', h_value = ''alice''\<rparr>]\<rparr>"

text \<open>A list whose key expired at time 500.\<close>

definition expired_list_db :: database where
  "expired_list_db = emptyDB
     \<lparr>rkey := [\<lparr>k_id = 1, k_key = ''k'', k_type = 2, k_version = 1,
                k_etime = Some 500, k_mtime = 100, k_len = Some 1\<rparr>],
      rlist := [\<lparr>l_kid = 1, l_pos = 0, l_elem = ''a''\<rparr>]\<rparr>"

text \<open>A list of three elements, stored out of order.\<close>

definition colors_db :: database where
  "colors_db = emptyDB
     \<lparr>rkey := [\<lparr>k_id = 7, k_key = ''colors'', k_type = 2, k_version = 3,
                k_etime = None, k_mtime = 100, k_len = Some 3\<rparr>],
      rlist := [\<lparr>l_kid = 7, l_pos = 1, l_elem = ''green''\<rparr>,
                \<lparr>l_kid = 7, l_pos = 0, l_elem = ''red''\<rparr>,
                \<lparr>l_kid = 7, l_pos = 2, l_elem = ''blue''\<rparr>]\<rparr>"

text \<open>
  The constraints of the schema that the scan relies on: the primary key of \<open>rkey\<close>,
  the unique index on \<open>rkey.key\<close>, the \<open>rowid\<close> of \<open>rhash\<close>, and the unique index on
  \<open>rhash (kid, field)\<close>.
\<close>

definition schema_ok :: "database \<Rightarrow> bool" where
  "schema_ok db =
     (distinct (map k_id (rkey db)) \<and> distinct (map k_key (rkey db))
      \<and> distinct (map h_rowid (rhash db))
      \<and> distinct (map (\<lambda>h. (h_kid h, h_field h)) (rhash db)))"

text \<open>A hash of three fields.\<close>

definition person_db :: database where
  "person_db = emptyDB
     \<lparr>rkey := [\<lparr>k_id = 1, k_key = ''person'', k_type = 4, k_version = 3,
                k_etime = None, k_mtime = 100, k_len = Some 3\<rparr>],
      rhash := [\<lparr>h_rowid = 3, h_kid = 1, h_field = ''city'', h_value = ''paris''\<rparr>,
                \<lparr>h_rowid = 1, h_kid = 1, h_field = ''name'', h_value = ''alice''\<rparr>,
                \<lparr>h_rowid = 2, h_kid = 1, h_field = ''age'', h_value = ''25''\<rparr>]\<rparr>"

text \<open>A stand-in for the engine's \<open>GLOB\<close> that knows the pattern \<open>*\<close> only.\<close>

definition star_glob :: "string \<Rightarrow> string \<Rightarrow> bool" where
  "star_glob field pattern = (pattern = ''*'')"

text \<open>A string key.\<close>

definition string_db :: database where
  "string_db = emptyDB
     \<lparr>rkey := [\<lparr>k_id = 1, k_key = ''k'', k_type = 1, k_version = 1,
                k_etime = None, k_mtime = 100, k_len = None\<rparr>],
      rstring := [\<lparr>s_kid = 1, s_value = ''v''\<rparr>]\<rparr>"

text \<open>Values that are byte strings already.\<close>

definition bytes_core :: "string core" where
  "bytes_core = \<lparr>IsValueType = (\<lambda>v. True), ToBytes = Inr\<rparr>"

text \<open>The rows of the live hash whose field is among the given ones.\<close>

definition existing :: "database \<Rightarrow> int \<Rightarrow> string \<Rightarrow> string list \<Rightarrow> rhash_row list" where
  "existing db now key flds = filter (\<lambda>h. h_field h \<in> set flds) (hash_rows db now key)"






section \<open>Iterating over the pages of a scan\<close>

text \<open>
  The loop of \<open>Scanner.Scan\<close> (the set repository's scanner is among the sources; the
  hash repository's \<open>newScanner\<close> follows the same protocol): fetch a page from the
  cursor, stop at an empty page or at an error, otherwise hand out the items and go on
  from the cursor of the page.  \<open>scanPages\<close> is the list of the pages fetched, the last,
  empty one included.  Every call reads the clock again: \<open>clock n\<close> is the time of the
  \<open>n\<close>-th call.  The loop ends because the rows above the cursor get fewer.
\<close>

definition rows_above :: "database \<Rightarrow> int \<Rightarrow> nat" where
  "rows_above db cursor = length (filter (\<lambda>h. h_rowid h > cursor) (rhash db))"

lemma maxItemID_ge_start: "m0 \<le> maxItemID items m0"
proof (induction items arbitrary: m0)
  case Nil
  show ?case by simp
next
  case (Cons a items)
  show ?case
    using Cons [of "if it_id a > m0 then it_id a else m0"] by (simp split: if_splits)
qed

lemma maxItemID_ge_item: "it \<in> set items \<Longrightarrow> it_id it \<le> maxItemID items m0"
proof (induction items arbitrary: m0)
  case Nil
  then show ?case by simp
next
  case (Cons a items)
  show ?case
  proof (cases "it = a")
    case True
    then show ?thesis
      using maxItemID_ge_start [of "if it_id a > m0 then it_id a else m0" items]
      by (simp split: if_splits)
  next
    case False
    with Cons show ?thesis by simp
  qed
qed

lemma set_hash_join:
  "set (hash_join db now key) =
     {(h, k). h \<in> set (rhash db) \<and> k \<in> set (rkey db) \<and> h_kid h = k_id k \<and> k_type k = 4
              \<and> k_key k = key \<and> live now k}"
  unfolding hash_join_def by auto

lemma hash_rows_sub: "h \<in> set (hash_rows db now key) \<Longrightarrow> h \<in> set (rhash db)"
  unfolding hash_rows_def hash_join_def by auto

lemma sqlLimit_subset: "h \<in> set (sqlLimit n rows) \<Longrightarrow> h \<in> set rows"
  by (cases "n < 0") (auto simp: sqlLimit_def dest: in_set_takeD)

lemma sqlScan_rows_sub:
  assumes "h \<in> set (sqlScan_rows eng db now key cursor pattern count)"
  shows "h \<in> set (rhash db)" and "cursor < h_rowid h" and "globMatch eng (h_field h) pattern"
proof -
  have "h \<in> set (filter (\<lambda>h. h_rowid h > cursor \<and> globMatch eng (h_field h) pattern)
               (hash_rows db now key))"
    using assms unfolding sqlScan_rows_def by (rule sqlLimit_subset)
  then show "h \<in> set (rhash db)" and "cursor < h_rowid h"
    and "globMatch eng (h_field h) pattern"
    by (auto dest: hash_rows_sub)
qed


lemma scan_items_rows:
  assumes "hash_Scan eng db now key cursor pattern count = Inr out" "it \<in> set (Items out)"
  shows "\<exists>h\<in>set (rhash db). it_id it = h_rowid h \<and> cursor < h_rowid h \<and> h_rowid h \<le> Cursor out"
proof -
  define cnt where "cnt = (if count = 0 then scanPageSize else count)"
  define items where "items = map scanItem (sqlScan_rows eng db now key cursor pattern cnt)"
  have out: "Cursor out = maxItemID items 0" "Items out = items"
    using assms(1) by (auto simp: hash_Scan_def Let_def cnt_def items_def)
  from assms(2) obtain h where
    h: "h \<in> set (sqlScan_rows eng db now key cursor pattern cnt)" "it_id it = h_rowid h"
    unfolding out items_def by (auto simp: scanItem_def)
  have "it_id it \<le> Cursor out"
    using assms(2) unfolding out by (rule maxItemID_ge_item)
  with h sqlScan_rows_sub(1,2) [OF h(1)] show ?thesis by auto
qed

lemma filter_length_le:
  "\<forall>x\<in>set xs. Q x \<longrightarrow> P x \<Longrightarrow> length (filter Q xs) \<le> length (filter P xs)"
  by (induction xs) auto

lemma filter_length_less:
  assumes "\<forall>x\<in>set xs. Q x \<longrightarrow> P x" "x \<in> set xs" "P x" "\<not> Q x"
  shows "length (filter Q xs) < length (filter P xs)"
  using assms
proof (induction xs)
  case Nil
  then show ?case by simp
next
  case (Cons a xs)
  have le: "length (filter Q xs) \<le> length (filter P xs)"
    using Cons.prems(1) by (intro filter_length_le) simp
  show ?case
  proof (cases "x = a")
    case True
    with Cons.prems le show ?thesis by simp
  next
    case False
    with Cons have "length (filter Q xs) < length (filter P xs)" by simp
    with Cons.prems(1) show ?thesis by simp
  qed
qed

lemma scan_decreases:
  assumes "hash_Scan eng db now key cursor pattern count = Inr out" "Items out \<noteq> []"
  shows "rows_above db (Cursor out) < rows_above db cursor"
proof -
  from assms(2) obtain it where it: "it \<in> set (Items out)" by (cases "Items out") auto
  from scan_items_rows [OF assms(1) it] obtain h where
    h: "h \<in> set (rhash db)" "cursor < h_rowid h" "h_rowid h \<le> Cursor out" by auto
  show ?thesis
    unfolding rows_above_def
  proof (rule filter_length_less [where x = h])
    show "\<forall>x\<in>set (rhash db). Cursor out < h_rowid x \<longrightarrow> cursor < h_rowid x"
      using h by auto
  qed (use h in simp_all)
qed

function scanPages ::
  "engine \<Rightarrow> database \<Rightarrow> (nat \<Rightarrow> int) \<Rightarrow> string \<Rightarrow> string \<Rightarrow> int \<Rightarrow> nat \<Rightarrow> int \<Rightarrow> HashItem list list"
where
  "scanPages eng db clock key pattern count n cursor =
     (case hash_Scan eng db (clock n) key cursor pattern count of
        Inl err \<Rightarrow> []
      | Inr out \<Rightarrow>
          if Items out = [] then [[]]
          else Items out # scanPages eng db clock key pattern count (Suc n) (Cursor out))"
  by pat_completeness auto
termination
proof (relation "measure (\<lambda>(eng, db, clock, key, pattern, count, n, cursor). rows_above db cursor)")
  show "wf (measure (\<lambda>(eng, db, clock, key, pattern, count, n, cursor). rows_above db cursor))"
    by simp
next
  fix eng :: engine and db :: database and clock :: "nat \<Rightarrow> int" and key pattern :: string
    and count cursor :: int and n :: nat and out :: ScanResult
  assume "hash_Scan eng db (clock n) key cursor pattern count = Inr out" "Items out \<noteq> []"
  then have "rows_above db (Cursor out) < rows_above db cursor"
    by (rule scan_decreases)
  then show "((eng, db, clock, key, pattern, count, Suc n, Cursor out),
              (eng, db, clock, key, pattern, count, n, cursor))
      \<in> measure (\<lambda>(eng, db, clock, key, pattern, count, n, cursor). rows_above db cursor)"
    by simp
qed

section \<open>Properties\<close>

subsection \<open>Keys that are expired or missing\<close>

lemma absent_not_live:
  "logically_absent db now key \<Longrightarrow> k \<in> set (rkey db) \<Longrightarrow> k_key k = key \<Longrightarrow> \<not> live now k"
  by (auto simp: logically_absent_def live_def split: option.splits)

lemma absent_keys:
  assumes "logically_absent db now key"
  shows "live_keys db now key t = []"
  unfolding live_keys_def using absent_not_live [OF assms] by (auto simp: filter_empty_conv)

lemma absent_hash_rows:
  assumes "logically_absent db now key"
  shows "hash_rows db now key = []"
  unfolding hash_rows_def hash_join_def using absent_not_live [OF assms]
  by (auto simp: concat_eq_Nil_conv)

lemma absent_list_rows:
  assumes "logically_absent db now key"
  shows "list_rows db now key = []"
  unfolding list_rows_def list_join_def using absent_not_live [OF assms]
  by (auto simp: concat_eq_Nil_conv)

lemma emptyDB_absent: "logically_absent emptyDB now key"
  by (simp add: logically_absent_def emptyDB_def)

lemma desc_text: "Replace sqlGet Asc Desc 1 = sqlGetDesc"
  by code_simp

lemma texts_differ: "sqlGet \<noteq> sqlGetDesc"
  by code_simp

lemma absent_hash_reads:
  assumes "logically_absent db now key"
  shows "hash_count db now key flds = Inr 0"
    and "hash_Exists db now key field = Inr False"
    and "hash_Fields db now key = Inr []"
    and "hash_Get db now key field = Inl ErrNotFound"
    and "hash_GetMany db now key flds = Inr Map.empty"
    and "hash_Items db now key = Inr Map.empty"
    and "hash_Len db now key = Inr 0"
    and "hash_Values db now key = Inr []"
    and "hash_Scan eng db now key cursor pattern count = Inr \<lparr>Cursor = 0, Items = []\<rparr>"
  using absent_hash_rows [OF assms] absent_keys [OF assms]
  by (simp_all add: hash_count_def hash_Exists_def hash_Fields_def hash_Get_def
        hash_GetMany_def hash_Items_def hash_Len_def hash_Values_def hash_Scan_def
        sqlGet_hash_def items_map_def sqlScan_rows_def sqlLimit_def)

lemma absent_list_Range:
  assumes "logically_absent db now key"
  shows "list_Range eng db now key start stop =
     (if start > stop \<and> (start > 0 \<and> stop > 0 \<or> start < 0 \<and> stop < 0) then Inr []
      else if (start < 0 \<or> stop < 0) \<and> nullLimit eng \<noteq> None
        then Inl (TypedError (the (nullLimit eng)))
      else Inr [])"
  using absent_keys [OF assms]
  by (auto simp: list_Range_def limitOffset_def sqlLimit_def sqlOffset_def Let_def
           split: option.splits)

lemma absent_list_reads:
  assumes "logically_absent db now key"
  shows "list_Len db now key = Inr 0"
    and "list_Get db now key idx = Inl ErrNotFound"
proof -
  show "list_Len db now key = Inr 0"
    using absent_keys [OF assms] by (simp add: list_Len_def)
  have "sqlGet_rows dir db now key i = []" for dir i
    using absent_list_rows [OF assms]
    by (cases dir) (simp_all add: sqlGet_rows_def ordered_rows_def)
  then show "list_Get db now key idx = Inl ErrNotFound"
    using texts_differ
    by (simp add: list_Get_def sqlGet_order_def desc_text split: prod.splits)
qed

text \<open>
  Every read of the hash and list repositories gives, on a key whose row
  has \<open>etime \<le> now\<close>, the result it gives when the key has no row: \<open>false\<close>, the
  empty list or map, zero, the empty page, or \<open>ErrNotFound\<close>.  \<open>Range\<close> gives what it
  gives on the empty database, which is the empty list when both indexes are
  non-negative (with a negative index the bounds are \<open>NULL\<close> and the engine decides).
\<close>

theorem expired_key_reads_as_missing:
  assumes "logically_absent db now key"
  shows "hash_Exists db now key field = Inr False
       \<and> hash_Fields db now key = Inr []
       \<and> hash_Get db now key field = Inl ErrNotFound
       \<and> hash_GetMany db now key flds = Inr Map.empty
       \<and> hash_Items db now key = Inr Map.empty
       \<and> hash_Len db now key = Inr 0
       \<and> hash_Values db now key = Inr []
       \<and> hash_Scan eng db now key cursor pattern count = Inr \<lparr>Cursor = 0, Items = []\<rparr>
       \<and> list_Get db now key idx = Inl ErrNotFound
       \<and> list_Len db now key = Inr 0
       \<and> list_Range eng db now key start stop = list_Range eng emptyDB now key start stop
       \<and> (0 \<le> start \<and> 0 \<le> stop \<longrightarrow> list_Range eng db now key start stop = Inr [])"
  using absent_hash_reads [OF assms] absent_list_reads [OF assms]
    absent_list_Range [OF assms] absent_list_Range [OF emptyDB_absent]
  by simp

theorem expired_key_reads_as_missing_witness:
  "logically_absent expired_hash_db 1000 ''person''
   \<and> hash_Get expired_hash_db 1000 ''person'' ''name'' = Inl ErrNotFound
   \<and> hash_Len expired_hash_db 1000 ''person'' = Inr 0
   \<and> hash_Get expired_hash_db 400 ''person'' ''name'' = Inr ''alice''"
proof -
  have h: "logically_absent expired_hash_db 1000 ''person''"
    by (simp add: logically_absent_def expired_hash_db_def emptyDB_def)
  have "hash_Get expired_hash_db 400 ''person'' ''name'' = Inr ''alice''"
    by (simp add: hash_Get_def sqlGet_hash_def hash_rows_def hash_join_def
          expired_hash_db_def emptyDB_def live_def)
  with h expired_key_reads_as_missing [OF h] show ?thesis by simp
qed

text \<open>
  Claim C4.  On SQLite, \<open>Range\<close> with a negative index does not give the empty list on
  an expired key, nor on a missing one: the bounds of the statement are \<open>NULL\<close>, its
  \<open>LIMIT\<close> fails with \<open>datatype mismatch\<close>, and \<open>Range\<close> returns that error.  Before
  the expiry the same call returns the element, and with indexes that are not negative
  the expired key gives the empty list; on PostgreSQL, where a \<open>NULL\<close> limit is no
  limit, the negative index gives the empty list too.
\<close>

theorem expired_list_Range_negative_index:
  "list_Range (sqlite star_glob) expired_list_db 1000 ''k'' 0 (- 1)
     = Inl (SqlError ''datatype mismatch'')
   \<and> list_Range (sqlite star_glob) emptyDB 1000 ''k'' 0 (- 1)
     = Inl (SqlError ''datatype mismatch'')
   \<and> list_Range (sqlite star_glob) expired_list_db 400 ''k'' 0 (- 1) = Inr [''a'']
   \<and> list_Range (sqlite star_glob) expired_list_db 1000 ''k'' 0 1 = Inr []
   \<and> list_Range (postgres star_glob) expired_list_db 1000 ''k'' 0 (- 1) = Inr []"
  by code_simp

subsection \<open>List elements by index\<close>

lemma zip_rownum:
  "map fst (filter (\<lambda>(e, n). int n = j) (zip xs [m ..< m + length xs])) =
     (if int m \<le> j \<and> j < int m + int (length xs) then [xs ! nat (j - int m)] else [])"
proof (induction xs arbitrary: m)
  case Nil
  then show ?case by simp
next
  case (Cons x xs)
  have upt: "[m ..< m + length (x # xs)] = m # [Suc m ..< Suc m + length xs]"
    by (simp add: upt_rec)
  have idx: "nat (j - int m) = Suc (nat (j - int (Suc m)))" if "int (Suc m) \<le> j"
    using that by simp
  show ?case
  proof (cases "int m = j")
    case True
    then show ?thesis
      unfolding upt using Cons.IH [of "Suc m"] by auto
  next
    case False
    show ?thesis
    proof (cases "int (Suc m) \<le> j")
      case True
      with False show ?thesis
        unfolding upt using Cons.IH [of "Suc m"] idx [OF True] by auto
    next
      case below: False
      with False show ?thesis
        unfolding upt using Cons.IH [of "Suc m"] by auto
    qed
  qed
qed

lemma int64_id: "is_int64 x \<Longrightarrow> int64 x = x"
  unfolding is_int64_def int64_def by (simp add: mod_pos_pos_trivial)

text \<open>\<open>-idx - 1\<close> does not overflow for a negative 64-bit \<open>idx\<close>, the least one included.\<close>

lemma int64_neg:
  assumes "is_int64 i" "i < 0"
  shows "int64 (int64 (- i) - 1) = - i - 1"
proof (cases "i = - (2 ^ 63)")
  case True
  then show ?thesis by (simp add: int64_def)
next
  case False
  with assms have "is_int64 (- i)" "is_int64 (- i - 1)"
    by (auto simp: is_int64_def)
  then show ?thesis by (simp add: int64_id)
qed

lemma sqlGet_rows_nth:
  "sqlGet_rows dir db now key idx =
     (let elems = map l_elem (ordered_rows dir db now key)
      in if 0 \<le> idx \<and> idx < int (length elems) then [elems ! nat idx] else [])"
proof -
  define xs where "xs = map l_elem (ordered_rows dir db now key)"
  have "sqlGet_rows dir db now key idx =
          map fst (filter (\<lambda>(e, n). int n = idx + 1) (zip xs [1 ..< 1 + length xs]))"
    by (simp add: sqlGet_rows_def Let_def xs_def)
  also have "\<dots> = (if 0 \<le> idx \<and> idx < int (length xs) then [xs ! nat idx] else [])"
    using zip_rownum [where xs = xs and m = 1 and j = "idx + 1"] by simp
  finally show ?thesis by (simp add: xs_def Let_def)
qed

lemma list_Get_asc:
  "0 \<le> idx \<Longrightarrow> list_Get db now key idx =
     (case sqlGet_rows Ascending db now key idx of [] \<Rightarrow> Inl ErrNotFound | v # _ \<Rightarrow> Inr v)"
  by (simp add: list_Get_def sqlGet_order_def)

lemma list_Get_desc:
  "is_int64 idx \<Longrightarrow> idx < 0 \<Longrightarrow> list_Get db now key idx =
     (case sqlGet_rows Descending db now key (- idx - 1) of
        [] \<Rightarrow> Inl ErrNotFound | v # _ \<Rightarrow> Inr v)"
  using texts_differ by (simp add: list_Get_def sqlGet_order_def desc_text int64_neg)

lemma list_Get_nth:
  assumes "is_int64 idx"
  shows "list_Get db now key idx =
     (if 0 \<le> idx then
        (let asc = map l_elem (ordered_rows Ascending db now key)
         in if idx < int (length asc) then Inr (asc ! nat idx) else Inl ErrNotFound)
      else
        (let desc = map l_elem (ordered_rows Descending db now key)
         in if - idx - 1 < int (length desc) then Inr (desc ! nat (- idx - 1))
            else Inl ErrNotFound))"
proof (cases "0 \<le> idx")
  case True
  then show ?thesis by (simp add: list_Get_asc sqlGet_rows_nth Let_def)
next
  case False
  then have "idx < 0" by simp
  with assms show ?thesis by (simp add: list_Get_desc sqlGet_rows_nth Let_def)
qed

lemma not_a_list_no_rows:
  assumes "\<forall>k\<in>set (rkey db). k_key k = key \<longrightarrow> k_type k \<noteq> 2 \<or> \<not> live now k"
  shows "ordered_rows dir db now key = []"
proof -
  have "list_rows db now key = []"
    unfolding list_rows_def list_join_def using assms by (auto simp: concat_eq_Nil_conv)
  then show ?thesis by (cases dir) (simp_all add: ordered_rows_def)
qed

text \<open>
  Claim C5.  For a 64-bit index, \<open>Get(key, idx)\<close> with \<open>idx \<ge> 0\<close> returns the element
  at offset \<open>idx\<close> of the list's elements in ascending \<open>pos\<close> order, and with
  \<open>idx < 0\<close> the element at offset \<open>-idx-1\<close> in descending \<open>pos\<close> order; when there is no
  element at that offset it returns \<open>ErrNotFound\<close>, and so it does when the key has no live
  row of type list.
\<close>

theorem list_Get_by_index:
  assumes "is_int64 idx"
  shows "list_Get db now key idx =
          (if 0 \<le> idx then
             (let asc = map l_elem (ordered_rows Ascending db now key)
              in if idx < int (length asc) then Inr (asc ! nat idx) else Inl ErrNotFound)
           else
             (let desc = map l_elem (ordered_rows Descending db now key)
              in if - idx - 1 < int (length desc) then Inr (desc ! nat (- idx - 1))
                 else Inl ErrNotFound))
       \<and> ((\<forall>k\<in>set (rkey db). k_key k = key \<longrightarrow> k_type k \<noteq> 2 \<or> \<not> live now k)
            \<longrightarrow> list_Get db now key idx = Inl ErrNotFound)"
  using list_Get_nth [OF assms] not_a_list_no_rows [of db key now]
  by simp

theorem list_Get_by_index_witness:
  "is_int64 (- 1)
   \<and> list_Get colors_db 1000 ''colors'' (- 1) = Inr ''blue''
   \<and> list_Get colors_db 1000 ''colors'' 1 = Inr ''green''
   \<and> list_Get colors_db 1000 ''colors'' (- 4) = Inl ErrNotFound
   \<and> list_Get colors_db 1000 ''shapes'' 0 = Inl ErrNotFound"
proof -
  have r: "is_int64 (- 1)" "is_int64 1" "is_int64 (- 4)" "is_int64 0"
    by (simp_all add: is_int64_def)
  have j: "list_rows colors_db 1000 ''colors'' = rlist colors_db"
    by (simp add: list_rows_def list_join_def colors_db_def emptyDB_def live_def)
  have a: "map l_elem (ordered_rows Ascending colors_db 1000 ''colors'')
             = [''red'', ''green'', ''blue'']"
    unfolding ordered_rows_def Let_def j by (simp add: colors_db_def emptyDB_def)
  have d: "map l_elem (ordered_rows Descending colors_db 1000 ''colors'')
             = [''blue'', ''green'', ''red'']"
    unfolding ordered_rows_def Let_def j by (simp add: colors_db_def emptyDB_def)
  have n: "\<forall>k\<in>set (rkey colors_db). k_key k = ''shapes'' \<longrightarrow> k_type k \<noteq> 2 \<or> \<not> live 1000 k"
    by (simp add: colors_db_def emptyDB_def)
  have "list_Get colors_db 1000 ''colors'' (- 1) = Inr ''blue''"
    using list_Get_by_index [OF r(1), of colors_db 1000 "''colors''", THEN conjunct1]
    by (simp add: a d)
  moreover have "list_Get colors_db 1000 ''colors'' 1 = Inr ''green''"
    using list_Get_by_index [OF r(2), of colors_db 1000 "''colors''", THEN conjunct1]
    by (simp add: a d)
  moreover have "list_Get colors_db 1000 ''colors'' (- 4) = Inl ErrNotFound"
    using list_Get_by_index [OF r(3), of colors_db 1000 "''colors''", THEN conjunct1]
    by (simp add: a d)
  moreover have "list_Get colors_db 1000 ''shapes'' 0 = Inl ErrNotFound"
    using list_Get_by_index [OF r(4), of colors_db 1000 "''shapes''", THEN conjunct2] n
    by blast
  ultimately show ?thesis using r(1) by simp
qed

subsection \<open>Scanning a hash page by page\<close>

lemma hash_rows_key:
  "h \<in> set (hash_rows db now key) \<Longrightarrow>
     h \<in> set (rhash db) \<and> (\<exists>k\<in>set (rkey db). h_kid h = k_id k \<and> k_key k = key)"
  unfolding hash_rows_def hash_join_def by auto

lemma unique_key_filter:
  "distinct (map k_key ks) \<Longrightarrow> length (filter (\<lambda>k. P k \<and> k_key k = key \<and> Q k) ks) \<le> 1"
proof (induction ks)
  case Nil
  then show ?case by simp
next
  case (Cons a ks)
  show ?case
  proof (cases "k_key a = key")
    case True
    with Cons.prems have "key \<notin> k_key ` set ks" by simp
    then have "\<forall>k\<in>set ks. k_key k \<noteq> key" by blast
    then have "filter (\<lambda>k. P k \<and> k_key k = key \<and> Q k) ks = []"
      by (simp add: filter_empty_conv)
    then show ?thesis by simp
  next
    case False
    with Cons show ?thesis by simp
  qed
qed

lemma short_list: "length xs \<le> 1 \<Longrightarrow> xs = [] \<or> (\<exists>x. xs = [x])"
  by (cases xs) auto

lemma distinct_join_rows:
  assumes "distinct (map f hs)" "\<And>h. length (g h) \<le> 1"
  shows "distinct (map f (concat (map (\<lambda>h. map (\<lambda>k. h) (g h)) hs)))"
  using assms(1)
proof (induction hs)
  case Nil
  then show ?case by simp
next
  case (Cons h hs)
  have rest: "set (concat (map (\<lambda>h. map (\<lambda>k. h) (g h)) hs)) \<subseteq> set hs" by auto
  from short_list [OF assms(2) [of h]] show ?case
  proof
    assume "g h = []"
    with Cons show ?thesis by simp
  next
    assume "\<exists>x. g h = [x]"
    then obtain x where "g h = [x]" by blast
    with Cons rest show ?thesis by auto
  qed
qed

lemma hash_rows_distinct:
  assumes "distinct (map k_key (rkey db))" "distinct (map h_rowid (rhash db))"
  shows "distinct (map h_rowid (hash_rows db now key))"
proof -
  have one: "length (filter (\<lambda>k. (h_kid h = k_id k \<and> k_type k = 4) \<and> k_key k = key \<and> live now k)
                (rkey db)) \<le> 1" for h
    using assms(1) by (rule unique_key_filter)
  have rows: "hash_rows db now key =
      concat (map (\<lambda>h. map (\<lambda>k. h)
        (filter (\<lambda>k. (h_kid h = k_id k \<and> k_type k = 4) \<and> k_key k = key \<and> live now k) (rkey db)))
        (rhash db))"
    unfolding hash_rows_def hash_join_def by (simp add: map_concat comp_def conj_assoc)
  show ?thesis
    unfolding rows using assms(2) one by (rule distinct_join_rows)
qed

lemma sqlLimit_distinct: "distinct (map f rows) \<Longrightarrow> distinct (map f (sqlLimit n rows))"
  by (cases "n < 0") (simp_all add: sqlLimit_def take_map [symmetric])

lemma sqlScan_rows_distinct:
  assumes "distinct (map k_key (rkey db))" "distinct (map h_rowid (rhash db))"
  shows "distinct (map h_rowid (sqlScan_rows eng db now key cursor pattern count))"
  unfolding sqlScan_rows_def
  by (intro sqlLimit_distinct distinct_map_filter hash_rows_distinct assms)

lemma hash_Scan_page:
  assumes "hash_Scan eng db now key cursor pattern count = Inr out"
  shows "\<exists>rows. Items out = map scanItem rows
           \<and> set rows \<subseteq> set (hash_rows db now key)
           \<and> (\<forall>h\<in>set rows. cursor < h_rowid h \<and> h_rowid h \<le> Cursor out
                  \<and> globMatch eng (h_field h) pattern)
           \<and> (distinct (map k_key (rkey db)) \<and> distinct (map h_rowid (rhash db))
                \<longrightarrow> distinct (map h_rowid rows))"
proof -
  define cnt where "cnt = (if count = 0 then scanPageSize else count)"
  define rows where "rows = sqlScan_rows eng db now key cursor pattern cnt"
  have items: "Items out = map scanItem rows" and cur: "Cursor out = maxItemID (map scanItem rows) 0"
    using assms by (auto simp: hash_Scan_def Let_def cnt_def rows_def scanItem_def)
  have sub: "set rows \<subseteq> set (hash_rows db now key)"
    unfolding rows_def sqlScan_rows_def by (auto dest: sqlLimit_subset)
  have bounds: "cursor < h_rowid h \<and> h_rowid h \<le> Cursor out
                \<and> globMatch eng (h_field h) pattern" if "h \<in> set rows" for h
  proof -
    have "scanItem h \<in> set (map scanItem rows)" using that by simp
    then have "it_id (scanItem h) \<le> Cursor out" unfolding cur by (rule maxItemID_ge_item)
    moreover have "cursor < h_rowid h" "globMatch eng (h_field h) pattern"
      using that unfolding rows_def by (rule sqlScan_rows_sub)+
    ultimately show ?thesis by (simp add: scanItem_def)
  qed
  have "distinct (map h_rowid rows)"
    if "distinct (map k_key (rkey db)) \<and> distinct (map h_rowid (rhash db))"
    using that unfolding rows_def by (simp add: sqlScan_rows_distinct)
  with items sub bounds show ?thesis by blast
qed

lemma scanPages_items:
  "it \<in> set (concat (scanPages eng db clock key pattern count n cursor)) \<Longrightarrow>
     cursor < it_id it \<and> globMatch eng (Field it) pattern
     \<and> (\<exists>h\<in>set (rhash db). it = scanItem h
            \<and> (\<exists>k\<in>set (rkey db). h_kid h = k_id k \<and> k_key k = key))"
proof (induction eng db clock key pattern count n cursor rule: scanPages.induct)
  case (1 eng db clock key pattern count n cursor)
  show ?case
  proof (cases "hash_Scan eng db (clock n) key cursor pattern count")
    case (Inl e)
    with "1.prems" show ?thesis by (simp add: scanPages.simps [of eng db clock key pattern count n cursor])
  next
    case (Inr out)
    show ?thesis
    proof (cases "Items out = []")
      case True
      with Inr "1.prems" show ?thesis
        by (simp add: scanPages.simps [of eng db clock key pattern count n cursor])
    next
      case False
      from hash_Scan_page [OF Inr] obtain rows where
        rows: "Items out = map scanItem rows" "set rows \<subseteq> set (hash_rows db (clock n) key)"
          "\<forall>h\<in>set rows. cursor < h_rowid h \<and> h_rowid h \<le> Cursor out
                \<and> globMatch eng (h_field h) pattern" by blast
      from False obtain h0 where h0: "h0 \<in> set rows" using rows(1) by (cases rows) auto
      then have lt: "cursor < Cursor out" using rows(3) by force
      from "1.prems" Inr False have
        "it \<in> set (Items out) \<or>
         it \<in> set (concat (scanPages eng db clock key pattern count (Suc n) (Cursor out)))"
        by (simp add: scanPages.simps [of eng db clock key pattern count n cursor])
      then show ?thesis
      proof
        assume "it \<in> set (Items out)"
        then obtain h where h: "h \<in> set rows" "it = scanItem h" using rows(1) by auto
        then have "h \<in> set (hash_rows db (clock n) key)" using rows(2) by blast
        from hash_rows_key [OF this] h rows(3) show ?thesis by (auto simp: scanItem_def)
      next
        assume "it \<in> set (concat (scanPages eng db clock key pattern count (Suc n) (Cursor out)))"
        from "1.IH" [OF Inr False this] lt show ?thesis by auto
      qed
    qed
  qed
qed

lemma scanPages_distinct_ids:
  assumes "distinct (map k_key (rkey db))" "distinct (map h_rowid (rhash db))"
  shows "distinct (map it_id (concat (scanPages eng db clock key pattern count n cursor)))"
  using assms
proof (induction eng db clock key pattern count n cursor rule: scanPages.induct)
  case (1 eng db clock key pattern count n cursor)
  show ?case
  proof (cases "hash_Scan eng db (clock n) key cursor pattern count")
    case (Inl e)
    then show ?thesis by (simp add: scanPages.simps [of eng db clock key pattern count n cursor])
  next
    case (Inr out)
    show ?thesis
    proof (cases "Items out = []")
      case True
      with Inr show ?thesis
        by (simp add: scanPages.simps [of eng db clock key pattern count n cursor])
    next
      case False
      define later where
        "later = concat (scanPages eng db clock key pattern count (Suc n) (Cursor out))"
      from hash_Scan_page [OF Inr] obtain rows where
        rows: "Items out = map scanItem rows"
          "\<forall>h\<in>set rows. cursor < h_rowid h \<and> h_rowid h \<le> Cursor out"
          "distinct (map k_key (rkey db)) \<and> distinct (map h_rowid (rhash db))
             \<longrightarrow> distinct (map h_rowid rows)"
        by blast
      have ids: "map it_id (Items out) = map h_rowid rows"
        by (simp add: rows(1) comp_def scanItem_def)
      have page: "distinct (map it_id (Items out))"
        unfolding ids using rows(3) "1.prems" by blast
      have rest: "distinct (map it_id later)"
        unfolding later_def using "1.IH" [OF Inr False "1.prems"] .
      have low: "i \<le> Cursor out" if "i \<in> set (map it_id (Items out))" for i
        using that rows(2) unfolding ids by auto
      have high: "Cursor out < i" if "i \<in> set (map it_id later)" for i
      proof -
        from that obtain b where "b \<in> set later" "i = it_id b" by auto
        then show ?thesis using scanPages_items [of b] unfolding later_def by blast
      qed
      have apart: "set (map it_id (Items out)) \<inter> set (map it_id later) = {}"
        using low high by fastforce
      have "concat (scanPages eng db clock key pattern count n cursor) = Items out @ later"
        using Inr False
        by (simp add: scanPages.simps [of eng db clock key pattern count n cursor] later_def)
      then show ?thesis using page rest apart by simp
    qed
  qed
qed

lemma scanPages_last:
  "scanPages eng db clock key pattern count n cursor \<noteq> []
   \<and> last (scanPages eng db clock key pattern count n cursor) = []"
proof (induction eng db clock key pattern count n cursor rule: scanPages.induct)
  case (1 eng db clock key pattern count n cursor)
  show ?case
  proof (cases "hash_Scan eng db (clock n) key cursor pattern count")
    case (Inl e)
    then show ?thesis by (simp add: hash_Scan_def Let_def)
  next
    case (Inr out)
    show ?thesis
    proof (cases "Items out = []")
      case True
      with Inr show ?thesis
        by (simp add: scanPages.simps [of eng db clock key pattern count n cursor])
    next
      case False
      with Inr "1.IH" [OF Inr False] show ?thesis
        by (simp add: scanPages.simps [of eng db clock key pattern count n cursor])
    qed
  qed
qed

lemma scanPages_inj_Field:
  assumes "schema_ok db"
  shows "inj_on Field (set (concat (scanPages eng db clock key pattern count n cursor)))"
proof (rule inj_onI)
  fix a b
  assume a: "a \<in> set (concat (scanPages eng db clock key pattern count n cursor))"
    and b: "b \<in> set (concat (scanPages eng db clock key pattern count n cursor))"
    and eq: "Field a = Field b"
  from scanPages_items [OF a] obtain h1 k1 where
    1: "h1 \<in> set (rhash db)" "a = scanItem h1" "k1 \<in> set (rkey db)" "h_kid h1 = k_id k1"
       "k_key k1 = key" by blast
  from scanPages_items [OF b] obtain h2 k2 where
    2: "h2 \<in> set (rhash db)" "b = scanItem h2" "k2 \<in> set (rkey db)" "h_kid h2 = k_id k2"
       "k_key k2 = key" by blast
  have "inj_on k_key (set (rkey db))"
    using assms by (simp add: schema_ok_def distinct_map)
  with 1 2 have "k1 = k2" by (auto dest: inj_onD)
  with 1 2 eq have "(h_kid h1, h_field h1) = (h_kid h2, h_field h2)"
    by (simp add: scanItem_def)
  moreover have "inj_on (\<lambda>h. (h_kid h, h_field h)) (set (rhash db))"
    using assms by (simp add: schema_ok_def distinct_map)
  ultimately have "h1 = h2" using 1(1) 2(1) by (auto dest: inj_onD)
  with 1 2 show "a = b" by simp
qed

text \<open>
  Claim C6.  Under the keys and unique indexes of the schema, the pages fetched from
  cursor 0, each from the cursor of the page before, hold every field at most once,
  and only fields that match the pattern; the iteration ends, and its last page is
  empty; every page of \<open>Scan\<close> holds only rows whose id is above the cursor it was
  asked with.
\<close>

theorem scan_pages_disjoint_and_finite:
  assumes "schema_ok db"
  shows "distinct (map Field (concat (scanPages eng db clock key pattern count 0 0)))
       \<and> (\<forall>it\<in>set (concat (scanPages eng db clock key pattern count 0 0)).
             globMatch eng (Field it) pattern)
       \<and> scanPages eng db clock key pattern count 0 0 \<noteq> []
       \<and> last (scanPages eng db clock key pattern count 0 0) = []
       \<and> (\<forall>out. hash_Scan eng db now key cursor pattern count = Inr out
             \<longrightarrow> (\<forall>it\<in>set (Items out). cursor < it_id it))"
proof -
  have ids: "distinct (map it_id (concat (scanPages eng db clock key pattern count 0 0)))"
    using assms by (intro scanPages_distinct_ids) (simp_all add: schema_ok_def)
  then have "distinct (concat (scanPages eng db clock key pattern count 0 0))"
    by (simp add: distinct_map)
  then have "distinct (map Field (concat (scanPages eng db clock key pattern count 0 0)))"
    using scanPages_inj_Field [OF assms] by (simp add: distinct_map)
  moreover have "\<forall>it\<in>set (Items out). cursor < it_id it"
    if "hash_Scan eng db now key cursor pattern count = Inr out" for out
    using scan_items_rows [OF that] by fastforce
  moreover have "\<forall>it\<in>set (concat (scanPages eng db clock key pattern count 0 0)).
             globMatch eng (Field it) pattern"
    using scanPages_items by blast
  ultimately show ?thesis using scanPages_last by blast
qed

theorem scan_pages_disjoint_and_finite_witness:
  "schema_ok person_db
   \<and> distinct (map Field
        (concat (scanPages (sqlite star_glob) person_db (\<lambda>n. 1000) ''person'' ''*'' 2 0 0)))
   \<and> last (scanPages (sqlite star_glob) person_db (\<lambda>n. 1000) ''person'' ''*'' 2 0 0) = []"
proof -
  have ok: "schema_ok person_db"
    by (simp add: schema_ok_def person_db_def emptyDB_def)
  from scan_pages_disjoint_and_finite [OF ok] ok show ?thesis by blast
qed

subsection \<open>Type conflicts\<close>

lemma unique_row:
  "distinct (map f xs) \<Longrightarrow> x \<in> set xs \<Longrightarrow> filter (\<lambda>y. f y = f x) xs = [x]"
proof (induction xs)
  case Nil
  then show ?case by simp
next
  case (Cons a xs)
  show ?case
  proof (cases "a = x")
    case True
    with Cons.prems have "f x \<notin> f ` set xs" by simp
    then have "\<forall>y\<in>set xs. f y \<noteq> f x" by (metis imageI)
    then have "filter (\<lambda>y. f y = f x) xs = []" by (simp add: filter_empty_conv)
    with True show ?thesis by simp
  next
    case False
    with Cons.prems have "x \<in> set xs" "f a \<noteq> f x" by auto
    with Cons show ?thesis by simp
  qed
qed

lemma key_row:
  assumes "distinct (map k_key (rkey db))" "k \<in> set (rkey db)" "k_key k = key"
  shows "filter (\<lambda>k. k_key k = key) (rkey db) = [k]"
  using unique_row [OF assms(1,2)] assms(3) by simp

lemma not_hash_no_rows:
  assumes "distinct (map k_key (rkey db))" "k \<in> set (rkey db)" "k_key k = key" "k_type k \<noteq> 4"
  shows "hash_rows db now key = []"
proof -
  have "k' = k" if "k' \<in> set (rkey db)" "k_key k' = key" for k'
    using assms(1,2,3) that by (metis distinct_map inj_onD)
  then have e: "filter (\<lambda>k. h_kid h = k_id k \<and> k_type k = 4 \<and> k_key k = key \<and> live now k) (rkey db) = []" for h
    using assms(4) by (auto simp: filter_empty_conv)
  have "hash_join db now key = []" unfolding hash_join_def by (simp add: e)
  then show ?thesis by (simp add: hash_rows_def)
qed

lemma hash_set_conflict:
  assumes "ConstraintFailed (SqlError (notNullText eng ''rkey.type'')) ''NOT NULL'' ''rkey.type''"
    and "distinct (map k_key (rkey db))" "k \<in> set (rkey db)" "k_key k = key" "k_type k \<noteq> 4"
    and "ToBytes core v = Inr b"
  shows "hash_set eng core db now key field v = (Some ErrKeyType, db)"
  using assms(1,5,6) key_row [OF assms(2,3,4)]
  by (simp add: hash_set_def sqlSet1_run_def TypedError_def)

lemma list_push_conflict:
  assumes "ConstraintFailed (SqlError (notNullText eng ''rkey.type'')) ''NOT NULL'' ''rkey.type''"
    and "distinct (map k_key (rkey db))" "k \<in> set (rkey db)" "k_key k = key" "k_type k \<noteq> 2"
    and "ToBytes core v = Inr b"
  shows "list_push eng core db now key v query = (Inl ErrKeyType, db)"
  using assms(1,5,6) key_row [OF assms(2,3,4)]
  by (simp add: list_push_def sqlPush_run_def TypedError_def)

text \<open>
  Let the engine report a \<open>NULL\<close> written to \<open>rkey.type\<close> with a text that
  contains \<open>NOT NULL constraint failed: rkey.type\<close>, as SQLite does.  When the key has
  a row of another type (expired or not), the upsert of a hash \<open>Set\<close>, \<open>SetNotExists\<close>
  or \<open>SetMany\<close>, and of a list \<open>PushBack\<close> or \<open>PushFront\<close>, with values that
  \<open>core\<close> accepts, computes \<open>NULL\<close> for \<open>type\<close> and fails; the operation returns
  \<open>ErrKeyType\<close> and the database is as it was.
\<close>

theorem type_conflict_is_ErrKeyType:
  assumes "ConstraintFailed (SqlError (notNullText eng ''rkey.type'')) ''NOT NULL'' ''rkey.type''"
    and "distinct (map k_key (rkey db))" "k \<in> set (rkey db)" "k_key k = key"
    and "IsValueType core v" "ToBytes core v = Inr b"
    and "\<forall>val\<in>set (map snd others). IsValueType core val"
  shows "(k_type k \<noteq> 4 \<longrightarrow>
            hash_Set eng core db now key field v = (Inl ErrKeyType, db)
          \<and> hash_SetNotExists eng core db now key field v = (Inl ErrKeyType, db)
          \<and> hash_SetMany eng core db now key ((field, v) # others) = (Inl ErrKeyType, db))
       \<and> (k_type k \<noteq> 2 \<longrightarrow>
            list_PushBack eng core db now key v = (Inl ErrKeyType, db)
          \<and> list_PushFront eng core db now key v = (Inl ErrKeyType, db))"
proof (intro conjI impI)
  assume t: "k_type k \<noteq> 4"
  note c = hash_set_conflict [OF assms(1-4) t assms(6)]
  note r = not_hash_no_rows [OF assms(2-4) t]
  show "hash_Set eng core db now key field v = (Inl ErrKeyType, db)"
    using assms(5) by (simp add: hash_Set_def hash_count_def c)
  show "hash_SetNotExists eng core db now key field v = (Inl ErrKeyType, db)"
    using assms(5) by (simp add: hash_SetNotExists_def hash_Exists_def sqlGet_hash_def r c)
  show "hash_SetMany eng core db now key ((field, v) # others) = (Inl ErrKeyType, db)"
    using assms(5,7) by (simp add: hash_SetMany_def hash_count_def c)
next
  assume t: "k_type k \<noteq> 2"
  show "list_PushBack eng core db now key v = (Inl ErrKeyType, db)"
    unfolding list_PushBack_def by (rule list_push_conflict [OF assms(1-4) t assms(6)])
  show "list_PushFront eng core db now key v = (Inl ErrKeyType, db)"
    unfolding list_PushFront_def by (rule list_push_conflict [OF assms(1-4) t assms(6)])
qed

theorem type_conflict_is_ErrKeyType_witness:
  "list_PushFront (sqlite star_glob) bytes_core string_db 1000 ''k'' ''x''
     = (Inl ErrKeyType, string_db)
   \<and> hash_Set (sqlite star_glob) bytes_core string_db 1000 ''k'' ''name'' ''x''
     = (Inl ErrKeyType, string_db)"
proof -
  have e: "ConstraintFailed (SqlError (notNullText (sqlite star_glob) ''rkey.type''))
             ''NOT NULL'' ''rkey.type''"
    by (simp add: ConstraintFailed_def errorText_def sqlite_def)
  have u: "distinct (map k_key (rkey string_db))"
    by (simp add: string_db_def emptyDB_def)
  have k: "\<lparr>k_id = 1, k_key = ''k'', k_type = 1, k_version = 1,
             k_etime = None, k_mtime = 100, k_len = None\<rparr> \<in> set (rkey string_db)"
    by (simp add: string_db_def emptyDB_def)
  have v: "IsValueType bytes_core ''x''" "ToBytes bytes_core ''x'' = Inr ''x''"
    "\<forall>val\<in>set (map snd ([] :: (string \<times> string) list)). IsValueType bytes_core val"
    by (simp_all add: bytes_core_def)
  from type_conflict_is_ErrKeyType [OF e u k _ v, of "''k''" 1000 "''name''"]
  show ?thesis by simp
qed

text \<open>
  Claim C2.  On PostgreSQL a write to a key of another type is not answered with
  \<open>ErrKeyType\<close>.  The upsert computes \<open>NULL\<close> for \<open>type\<close> and the statement fails, but
  \<open>lib/pq\<close> words the failure \<open>pq: null value in column "type" of relation "rkey"
  violates not-null constraint\<close>, which does not contain the text \<open>TypedError\<close> looks
  for: hash \<open>Set\<close> and list \<open>PushBack\<close> on a string key return the driver's error.
  On SQLite the same calls return \<open>ErrKeyType\<close>.  The database is unchanged in both.
\<close>

theorem type_conflict_on_postgres:
  "hash_Set (postgres star_glob) bytes_core string_db 1000 ''k'' ''name'' ''x''
     = (Inl (SqlError (''pq: null value in column '' @ quoteIdent ''type''
                       @ '' of relation '' @ quoteIdent ''rkey''
                       @ '' violates not-null constraint'')), string_db)
   \<and> list_PushBack (postgres star_glob) bytes_core string_db 1000 ''k'' ''x''
     = (Inl (SqlError (''pq: null value in column '' @ quoteIdent ''type''
                       @ '' of relation '' @ quoteIdent ''rkey''
                       @ '' violates not-null constraint'')), string_db)
   \<and> hash_Set (sqlite star_glob) bytes_core string_db 1000 ''k'' ''name'' ''x''
     = (Inl ErrKeyType, string_db)
   \<and> list_PushBack (sqlite star_glob) bytes_core string_db 1000 ''k'' ''x''
     = (Inl ErrKeyType, string_db)"
  by code_simp

subsection \<open>Deleting hash fields\<close>

lemma live_keys_cases:
  assumes "distinct (map k_key (rkey db))"
  shows "live_keys db now key t = []
       \<or> (\<exists>k\<in>set (rkey db). k_key k = key \<and> k_type k = t \<and> live now k
             \<and> live_keys db now key t = [k])"
proof (cases "live_keys db now key t")
  case Nil
  then show ?thesis by simp
next
  case (Cons k ks)
  then have "k \<in> set (live_keys db now key t)" by simp
  then have k: "k \<in> set (rkey db)" "k_key k = key" "k_type k = t" "live now k"
    by (simp_all add: live_keys_def)
  have "live_keys db now key t = filter (\<lambda>k. k_type k = t \<and> live now k)
          (filter (\<lambda>k. k_key k = key) (rkey db))"
    by (simp add: live_keys_def conj_commute conj_left_commute)
  also have "\<dots> = [k]"
    using key_row [OF assms k(1,2)] k(3,4) by simp
  finally show ?thesis using k by blast
qed

lemma filter_conj_single:
  "filter Q xs = [k] \<Longrightarrow> filter (\<lambda>x. P x \<and> Q x) xs = (if P k then [k] else [])"
proof -
  assume a: "filter Q xs = [k]"
  have "filter (\<lambda>x. P x \<and> Q x) xs = filter P (filter Q xs)"
    by (simp add: conj_commute)
  then show ?thesis by (simp add: a)
qed

lemma concat_if_filter: "concat (map (\<lambda>x. if P x then [x] else []) xs) = filter P xs"
  by (induction xs) auto

lemma hash_rows_by_id:
  assumes "distinct (map k_key (rkey db))"
  shows "hash_rows db now key = filter (\<lambda>h. Some (h_kid h) = hash_key_id db now key) (rhash db)"
proof -
  have lk: "live_keys db now key 4 = filter (\<lambda>k. k_type k = 4 \<and> k_key k = key \<and> live now k) (rkey db)"
    by (simp add: live_keys_def conj_commute conj_left_commute)
  from live_keys_cases [OF assms, of now key 4] show ?thesis
  proof
    assume e: "live_keys db now key 4 = []"
    then have "\<forall>k\<in>set (rkey db). \<not> (k_type k = 4 \<and> k_key k = key \<and> live now k)"
      unfolding lk by (simp add: filter_empty_conv)
    then have none: "filter (\<lambda>k. h_kid h = k_id k \<and> k_type k = 4 \<and> k_key k = key \<and> live now k) (rkey db) = []" for h
      by (simp add: filter_empty_conv)
    have "hash_rows db now key = []"
      by (simp add: hash_rows_def hash_join_def none)
    then show ?thesis by (simp add: hash_key_id_def e)
  next
    assume "\<exists>k\<in>set (rkey db). k_key k = key \<and> k_type k = 4 \<and> live now k
             \<and> live_keys db now key 4 = [k]"
    then obtain k where k: "live_keys db now key 4 = [k]" by blast
    have inner: "filter (\<lambda>k. h_kid h = k_id k \<and> k_type k = 4 \<and> k_key k = key \<and> live now k) (rkey db)
            = (if h_kid h = k_id k then [k] else [])" for h
      using filter_conj_single [OF k [unfolded lk], of "\<lambda>k. h_kid h = k_id k"] by simp
    have "hash_rows db now key = concat (map (\<lambda>h. if h_kid h = k_id k then [h] else []) (rhash db))"
      unfolding hash_rows_def hash_join_def inner
      by (simp add: map_concat comp_def if_distrib [where f = "map (\<lambda>k. h)" for h] cong: if_cong)
    also have "\<dots> = filter (\<lambda>h. h_kid h = k_id k) (rhash db)"
      by (rule concat_if_filter)
    finally show ?thesis by (simp add: hash_key_id_def k)
  qed
qed

lemma sqlDelete1_run_eq:
  assumes "distinct (map k_key (rkey db))"
  shows "sqlDelete1_run db now key flds =
     (int (length (existing db now key flds)),
      db\<lparr>rhash := filter (\<lambda>h. \<not> (Some (h_kid h) = hash_key_id db now key \<and> h_field h \<in> set flds))
                      (rhash db)\<rparr>)"
proof -
  have "filter (\<lambda>h. Some (h_kid h) = hash_key_id db now key \<and> h_field h \<in> set flds) (rhash db)
          = existing db now key flds"
    unfolding existing_def hash_rows_by_id [OF assms] by (simp add: conj_commute)
  then show ?thesis by (simp add: sqlDelete1_run_def Let_def)
qed

lemma filter_nothing: "filter P xs = [] \<Longrightarrow> filter (\<lambda>x. \<not> P x) xs = xs"
  by (induction xs) (auto split: if_splits)

lemma hash_Delete_none:
  assumes "distinct (map k_key (rkey db))" "existing db now key flds = []"
  shows "hash_Delete db now key flds = (Inr 0, db)"
proof -
  have "filter (\<lambda>h. Some (h_kid h) = hash_key_id db now key \<and> h_field h \<in> set flds) (rhash db) = []"
    using assms(2) unfolding existing_def hash_rows_by_id [OF assms(1)] by (simp add: conj_commute)
  then have "filter (\<lambda>h. \<not> (Some (h_kid h) = hash_key_id db now key \<and> h_field h \<in> set flds))
               (rhash db) = rhash db"
    by (rule filter_nothing)
  then show ?thesis
    by (simp add: hash_Delete_def sqlDelete1_run_eq [OF assms(1)] assms(2))
qed

lemma live_hash_key:
  assumes "distinct (map k_key (rkey db))" "existing db now key flds \<noteq> []"
    and "k \<in> set (rkey db)" "k_key k = key"
  shows "k_type k = 4 \<and> live now k"
proof -
  from assms(2) have "hash_rows db now key \<noteq> []" by (auto simp: existing_def)
  then have "live_keys db now key 4 \<noteq> []"
    unfolding hash_rows_by_id [OF assms(1)] hash_key_id_def by (auto split: list.splits)
  with live_keys_cases [OF assms(1), of now key 4] obtain k' where
    k': "k' \<in> set (rkey db)" "k_key k' = key" "k_type k' = 4" "live now k'" by blast
  have "k' = k" using assms(1,3,4) k'(1,2) by (metis distinct_map inj_onD)
  with k' show ?thesis by simp
qed

lemma hash_Delete_some:
  assumes "distinct (map k_key (rkey db))" "existing db now key flds \<noteq> []"
  shows "hash_Delete db now key flds =
     (Inr (int (length (existing db now key flds))),
      db\<lparr>rhash := filter (\<lambda>h. \<not> (Some (h_kid h) = hash_key_id db now key \<and> h_field h \<in> set flds))
                      (rhash db),
         rkey := map (\<lambda>k. if k_key k = key
                       then k\<lparr>k_version := k_version k + 1, k_mtime := now,
                              k_len := map_option (\<lambda>n. n - int (length (existing db now key flds)))
                                         (k_len k)\<rparr>
                       else k) (rkey db)\<rparr>)"
proof -
  have ne: "flds \<noteq> []" using assms(2) by (auto simp: existing_def)
  have upd: "map (\<lambda>k. if k_key k = key \<and> k_type k = 4 \<and> live now k then f k else k) (rkey db)
        = map (\<lambda>k. if k_key k = key then f k else k) (rkey db)" for f
    using live_hash_key [OF assms] by (intro map_cong) auto
  show ?thesis
    using assms(2) ne
    by (simp add: hash_Delete_def sqlDelete1_run_eq [OF assms(1)] sqlDelete2_run_def Let_def upd)
qed

text \<open>
  Claim C10.  With no field given, or with no given field in the hash (so also when
  the key is missing, expired or not a hash), \<open>Delete\<close> returns 0 and the database is as
  it was, the key's version, mtime and len included.  Otherwise it returns the number
  of rows deleted, removes those rows, and changes the row of the key alone: its
  version grows by one, its len drops by that number, its mtime is the time of the call.
\<close>

theorem hash_Delete_frame:
  assumes "distinct (map k_key (rkey db))"
  shows "hash_Delete db now key [] = (Inr 0, db)
       \<and> (existing db now key flds = [] \<longrightarrow> hash_Delete db now key flds = (Inr 0, db))
       \<and> (existing db now key flds \<noteq> [] \<longrightarrow>
            hash_Delete db now key flds =
              (Inr (int (length (existing db now key flds))),
               db\<lparr>rhash := filter (\<lambda>h. \<not> (Some (h_kid h) = hash_key_id db now key
                                          \<and> h_field h \<in> set flds)) (rhash db),
                  rkey := map (\<lambda>k. if k_key k = key
                            then k\<lparr>k_version := k_version k + 1, k_mtime := now,
                                   k_len := map_option
                                     (\<lambda>n. n - int (length (existing db now key flds))) (k_len k)\<rparr>
                            else k) (rkey db)\<rparr>))"
  using hash_Delete_none [OF assms] hash_Delete_some [OF assms]
  by (simp add: hash_Delete_def)

theorem hash_Delete_frame_witness:
  "hash_Delete person_db 1000 ''person'' [''zip''] = (Inr 0, person_db)
   \<and> fst (hash_Delete person_db 1000 ''person'' [''name'', ''zip'']) = Inr 1
   \<and> map k_version (rkey (snd (hash_Delete person_db 1000 ''person'' [''name'', ''zip'']))) = [4]
   \<and> map k_len (rkey (snd (hash_Delete person_db 1000 ''person'' [''name'', ''zip'']))) = [Some 2]
   \<and> map h_field (rhash (snd (hash_Delete person_db 1000 ''person'' [''name'', ''zip''])))
        = [''city'', ''age'']"
proof -
  have u: "distinct (map k_key (rkey person_db))"
    by (simp add: person_db_def emptyDB_def)
  have rows: "hash_rows person_db 1000 ''person'' = rhash person_db"
    by (simp add: hash_rows_def hash_join_def person_db_def emptyDB_def live_def)
  have none: "existing person_db 1000 ''person'' [''zip''] = []"
    unfolding existing_def rows by (simp add: person_db_def emptyDB_def)
  have one: "existing person_db 1000 ''person'' [''name'', ''zip'']
               = [\<lparr>h_rowid = 1, h_kid = 1, h_field = ''name'', h_value = ''alice''\<rparr>]"
    unfolding existing_def rows by (simp add: person_db_def emptyDB_def)
  have kid: "hash_key_id person_db 1000 ''person'' = Some 1"
    by (simp add: hash_key_id_def live_keys_def person_db_def emptyDB_def live_def)
  have a: "hash_Delete person_db 1000 ''person'' [''zip''] = (Inr 0, person_db)"
    using hash_Delete_frame [OF u, of 1000 "''person''" "[''zip'']"] none by simp
  have b: "hash_Delete person_db 1000 ''person'' [''name'', ''zip''] =
      (Inr 1, person_db\<lparr>rhash := filter (\<lambda>h. \<not> (Some (h_kid h) = Some 1
                                          \<and> h_field h \<in> set [''name'', ''zip''])) (rhash person_db),
                  rkey := map (\<lambda>k. if k_key k = ''person''
                            then k\<lparr>k_version := k_version k + 1, k_mtime := 1000,
                                   k_len := map_option (\<lambda>n. n - 1) (k_len k)\<rparr>
                            else k) (rkey person_db)\<rparr>)"
    using hash_Delete_frame [OF u, of 1000 "''person''" "[''name'', ''zip'']"] one kid by simp
  show ?thesis unfolding b a by (simp add: person_db_def emptyDB_def)
qed

subsection \<open>Setting many hash fields\<close>








lemma map_same:
  assumes "\<And>x. p (g x) = p x"
  shows "map p (map g xs) = map p xs"
  by (simp add: assms)














subsection \<open>The transaction envelope\<close>

text \<open>
  Claim C3.  \<open>Update\<close> begins a transaction on the read-write handle (with no options) and
  \<open>View\<close> one on the read-only handle, with the option \<open>ReadOnly\<close> exactly when the driver
  is PostgreSQL.  The transaction is committed if and only if it could be begun and \<open>f\<close>
  returned \<open>nil\<close>; then, the commit succeeding, the state \<open>f\<close> left is the database.  When
  \<open>f\<close> returns an error, that error is returned, the transaction is rolled back and the
  database is as before; when \<open>f\<close> panics, the panic goes on to the caller, after the same
  rollback.
\<close>

theorem execTx_envelope:
  "(case Update driver env f db of (res, db', calls) \<Rightarrow>
      hd calls = BeginTx RW None
      \<and> (Commit \<in> set calls \<longleftrightarrow>
            beginErr env = None \<and> fst (f (txFor driver) db) = Returns None)
      \<and> (beginErr env = None \<and> commitErr env = None
            \<and> fst (f (txFor driver) db) = Returns None
          \<longrightarrow> res = Returns None \<and> db' = snd (f (txFor driver) db))
      \<and> (beginErr env = None \<and> fst (f (txFor driver) db) = Returns (Some err)
          \<longrightarrow> res = Returns (Some err) \<and> db' = db \<and> calls = [BeginTx RW None, Rollback])
      \<and> (beginErr env = None \<and> fst (f (txFor driver) db) = Panics p
          \<longrightarrow> res = Panics p \<and> db' = db \<and> calls = [BeginTx RW None, Rollback])
      \<and> (fst (f (txFor driver) db) \<noteq> Returns None \<longrightarrow> db' = db))
   \<and> (case View driver env f db of (res, db', calls) \<Rightarrow>
        hd calls = BeginTx RO (if driver = DriverPostgres then Some \<lparr>ReadOnly = True\<rparr> else None)
        \<and> (fst (f (txFor driver) db) \<noteq> Returns None \<longrightarrow> db' = db \<and> Commit \<notin> set calls))"
  by (cases "f (txFor driver) db"; cases "fst (f (txFor driver) db)"; cases "beginErr env";
      cases "commitErr env")
     (auto simp: Update_def View_def execTx_def txFor_def Let_def split: option.splits)

theorem execTx_envelope_witness:
  "Update DriverPostgres \<lparr>beginErr = None, commitErr = None\<rparr>
      (\<lambda>tx db. (Returns None, string_db)) emptyDB
     = (Returns None, string_db, [BeginTx RW None, Commit, Rollback])
   \<and> Update DriverPostgres \<lparr>beginErr = None, commitErr = None\<rparr>
      (\<lambda>tx db. (Returns (Some ErrNotFound), string_db)) emptyDB
     = (Returns (Some ErrNotFound), emptyDB, [BeginTx RW None, Rollback])
   \<and> Update DriverSQLite \<lparr>beginErr = None, commitErr = None\<rparr>
      (\<lambda>tx db. (Panics ''boom'', string_db)) emptyDB
     = (Panics ''boom'', emptyDB, [BeginTx RW None, Rollback])
   \<and> hd (snd (snd (View DriverPostgres \<lparr>beginErr = None, commitErr = None\<rparr>
      (\<lambda>tx db. (Returns None, db)) emptyDB))) = BeginTx RO (Some \<lparr>ReadOnly = True\<rparr>)
   \<and> hd (snd (snd (View DriverSQLite \<lparr>beginErr = None, commitErr = None\<rparr>
      (\<lambda>tx db. (Returns None, db)) emptyDB))) = BeginTx RO None"
  using execTx_envelope [where driver = DriverPostgres and env = "\<lparr>beginErr = None, commitErr = None\<rparr>"
          and f = "\<lambda>tx db. (Returns None, string_db)" and db = emptyDB and err = ErrNotFound and p = "''boom''"]
        execTx_envelope [where driver = DriverPostgres and env = "\<lparr>beginErr = None, commitErr = None\<rparr>"
          and f = "\<lambda>tx db. (Returns (Some ErrNotFound), string_db)" and db = emptyDB and err = ErrNotFound and p = "''boom''"]
        execTx_envelope [where driver = DriverSQLite and env = "\<lparr>beginErr = None, commitErr = None\<rparr>"
          and f = "\<lambda>tx db. (Panics ''boom'', string_db)" and db = emptyDB and err = ErrNotFound and p = "''boom''"]
        execTx_envelope [where driver = DriverPostgres and env = "\<lparr>beginErr = None, commitErr = None\<rparr>"
          and f = "\<lambda>tx db. (Returns None, db)" and db = emptyDB and err = ErrNotFound and p = "''boom''"]
        execTx_envelope [where driver = DriverSQLite and env = "\<lparr>beginErr = None, commitErr = None\<rparr>"
          and f = "\<lambda>tx db. (Returns None, db)" and db = emptyDB and err = ErrNotFound and p = "''boom''"]
  by (simp add: Update_def View_def execTx_def DriverPostgres_def DriverSQLite_def)

subsection \<open>Placeholders\<close>

lemma Contains_qmark: "Contains q ''?'' \<longleftrightarrow> CHR ''?'' \<in> set q"
  by (induction q) auto

lemma digitChar_not_qmark: "d < 10 \<Longrightarrow> digitChar d \<noteq> CHR ''?''"
proof
  assume d: "d < 10" and e: "digitChar d = CHR ''?''"
  have "of_char (digitChar d) = (48 + d) mod 256" by (simp add: digitChar_def)
  also have "\<dots> = 48 + d" using d by simp
  finally have "of_char (digitChar d) = 48 + d" .
  moreover have "(of_char (CHR ''?'') :: nat) = 63" by simp
  ultimately show False using e d by simp
qed

lemma digits_no_qmark: "CHR ''?'' \<notin> set (digits n)"
proof (induction n rule: digits.induct)
  case (1 n)
  show ?case
  proof (cases "n < 10")
    case True
    then show ?thesis using digitChar_not_qmark [of n] by (subst digits.simps) auto
  next
    case False
    have "n mod 10 < 10" by simp
    then have "digitChar (n mod 10) \<noteq> CHR ''?''" by (rule digitChar_not_qmark)
    then show ?thesis using False 1 by (subst digits.simps) auto
  qed
qed

lemma Itoa_no_qmark: "CHR ''?'' \<notin> set (Itoa i)"
  by (simp add: Itoa_def digits_no_qmark)

lemma convertLoop_no_qmark: "CHR ''?'' \<notin> set (convertLoop q k)"
  by (induction q arbitrary: k) (auto simp: Itoa_no_qmark)

lemma convertLoop_step:
  "CHR ''?'' \<notin> set pre \<Longrightarrow>
     convertLoop (pre @ ''?'' @ post) k = pre @ ''$'' @ Itoa k @ convertLoop post (k + 1)"
  by (induction pre) auto

lemma convertLoop_id: "CHR ''?'' \<notin> set q \<Longrightarrow> convertLoop q k = q"
  by (induction q) auto

lemma ConvertPlaceholders_no_qmark: "CHR ''?'' \<notin> set (ConvertPlaceholders q)"
  by (simp add: ConvertPlaceholders_def Contains_qmark convertLoop_no_qmark)

lemma Itoa_1: "Itoa 1 = ''1''"
  by code_simp

lemma ConvertPlaceholders_first:
  "CHR ''?'' \<notin> set pre \<Longrightarrow>
     ConvertPlaceholders (pre @ ''?'' @ post) = pre @ ''$1'' @ convertLoop post 2"
  using convertLoop_step [of pre post 1]
  by (simp add: ConvertPlaceholders_def Contains_qmark Itoa_1)

lemma ConvertPlaceholders_id: "CHR ''?'' \<notin> set q \<Longrightarrow> ConvertPlaceholders q = q"
  by (simp add: ConvertPlaceholders_def Contains_qmark)

lemma ExpandIn_text: "fst (ExpandIn q p (map f xs)) = fst (ExpandIn q p xs)"
  by (simp add: ExpandIn_def comp_def)

lemma hash_Delete_stmt_sqlite:
  "fst (hash_Delete_stmt (txFor DriverSQLite) key now flds)
     = ConvertPlaceholders (fst (ExpandIn sqlDelete1 '':fields'' flds))"
proof -
  have "txFor DriverSQLite = RawTx"
    by (simp add: txFor_def DriverSQLite_def DriverPostgres_def)
  then show ?thesis
    using ExpandIn_text [of sqlDelete1 "'':fields''" AString flds]
    by (simp add: hash_Delete_stmt_def tx_Query_def Let_def split_beta)
qed

text \<open>
  On SQLite the transaction is the plain \<open>*sql.Tx\<close>, which executes the text it is given.
  \<open>Tx.Delete\<close> of the hash repository gives it the text that went through
  \<open>ConvertPlaceholders\<close>: for the key \<open>person\<close> and the fields \<open>name\<close> and \<open>age\<close> the
  statement executed holds \<open>$1\<close> to \<open>$4\<close>, and is not the canonical query with its
  question marks.
\<close>

theorem sqlite_Delete_text_differs:
  "hash_Delete_stmt (txFor DriverSQLite) ''person'' 1000 [''name'', ''age'']
     = (''\<newline>'' @
        TAB @ ''delete from rhash\<newline>'' @
        TAB @ ''where kid = (\<newline>'' @
        TAB @ TAB @ TAB @ ''select id from rkey\<newline>'' @
        TAB @ TAB @ TAB @ ''where key = $1 and type = 4 and (etime is null or etime > $2)\<newline>'' @
        TAB @ TAB @ '') and field in ($3,$4)'',
        [AString ''person'', AInt 1000, AString ''name'', AString ''age''])
   \<and> fst (ExpandIn sqlDelete1 '':fields'' [''name'', ''age''])
     = ''\<newline>'' @
        TAB @ ''delete from rhash\<newline>'' @
        TAB @ ''where kid = (\<newline>'' @
        TAB @ TAB @ TAB @ ''select id from rkey\<newline>'' @
        TAB @ TAB @ TAB @ ''where key = ? and type = 4 and (etime is null or etime > ?)\<newline>'' @
        TAB @ TAB @ '') and field in (?,?)''
   \<and> fst (hash_Delete_stmt (txFor DriverSQLite) ''person'' 1000 [''name'', ''age''])
     \<noteq> fst (ExpandIn sqlDelete1 '':fields'' [''name'', ''age''])"
  by code_simp

text \<open>
  Claim C8, amended.  \<open>ConvertPlaceholders\<close> does not look at the engine: in every query it
  writes \<open>$k\<close> for the \<open>k\<close>-th question mark and leaves no question mark, and a query
  without one is returned as it is.  Every statement sent through the PostgreSQL
  transaction ends with that conversion, so it holds no question mark.  The SQLite
  transaction executes the text it is given, unchanged; \<open>Tx.Delete\<close> of the hash
  repository gives it the converted text, also on SQLite.
\<close>

theorem placeholders_converted:
  "CHR ''?'' \<notin> set (ConvertPlaceholders q)
   \<and> (CHR ''?'' \<notin> set pre \<longrightarrow>
        ConvertPlaceholders (pre @ ''?'' @ post) = pre @ ''$1'' @ convertLoop post 2)
   \<and> (CHR ''?'' \<notin> set pre \<longrightarrow>
        convertLoop (pre @ ''?'' @ post) k = pre @ ''$'' @ Itoa k @ convertLoop post (k + 1))
   \<and> (CHR ''?'' \<notin> set q \<longrightarrow> ConvertPlaceholders q = q)
   \<and> CHR ''?'' \<notin> set (fst (tx_Query PostgresTx q args))
   \<and> tx_Query RawTx q args = (q, args)
   \<and> fst (hash_Delete_stmt (txFor DriverSQLite) key now flds)
       = ConvertPlaceholders (fst (ExpandIn sqlDelete1 '':fields'' flds))"
proof -
  have pg: "CHR ''?'' \<notin> set (fst (tx_Query PostgresTx q args))"
    by (simp add: tx_Query_def AdaptPostgresQuery_def ConvertPlaceholders_no_qmark)
  have raw: "tx_Query RawTx q args = (q, args)"
    by (simp add: tx_Query_def)
  show ?thesis
    using ConvertPlaceholders_no_qmark [of q] ConvertPlaceholders_first [of pre post]
      convertLoop_step [of pre post k] ConvertPlaceholders_id [of q] pg raw
      hash_Delete_stmt_sqlite [of key now flds]
    by blast
qed

theorem placeholders_converted_witness:
  "ConvertPlaceholders ''key = ? and etime > ?'' = ''key = $1 and etime > $2''
   \<and> ConvertPlaceholders ''select 1'' = ''select 1''"
proof -
  have "Itoa 1 = ''1''" and "Itoa 2 = ''2''" by code_simp+
  then show ?thesis
    using placeholders_converted [where q = "''select 1''" and pre = "''key = ''"
            and post = "'' and etime > ?''" and k = 1
            and args = "[] :: arg list" and key = "''person''" and now = 1000
            and flds = "[''name'']"]
          placeholders_converted [where q = "''select 1''" and pre = "'' and etime > ''"
            and post = "[]" and k = 2
            and args = "[] :: arg list" and key = "''person''" and now = 1000
            and flds = "[''name'']"]
    by simp
qed

subsection \<open>Patterns\<close>

text \<open>
  Claim C9.  \<open>Tx.Scan\<close> passes the pattern as the fourth argument of its statement, and
  no transaction changes an argument.  On PostgreSQL the statement's \<open>glob\<close> becomes
  \<open>ILIKE\<close> and the pattern \<open>*\<close> arrives as \<open>*\<close>; on SQLite the statement is \<open>sqlScan\<close>,
  with \<open>glob\<close>.
\<close>

theorem glob_pattern_not_translated:
  "snd (hash_Scan_stmt tx key now cursor pattern count) ! 3 = AString pattern
   \<and> hash_Scan_stmt PostgresTx ''person'' 1000 0 ''*'' 0
     = (''\<newline>'' @
        TAB @ ''select rhash.ctid::text, field, value\<newline>'' @
        TAB @ ''from rhash JOIN rkey on kid = rkey.id AND rkey.type = 4\<newline>'' @
        TAB @ ''where\<newline>'' @
        TAB @ TAB @ ''key = $1 AND (etime is null OR etime > $2)\<newline>'' @
        TAB @ TAB @ ''AND rhash.ctid::text > $3 AND field ILIKE $4\<newline>'' @
        TAB @ ''limit $5'',
        [AString ''person'', AInt 1000, AInt 0, AString ''*'', AInt 10])
   \<and> hash_Scan_stmt RawTx ''person'' 1000 0 ''*'' 0
     = (sqlScan, [AString ''person'', AInt 1000, AInt 0, AString ''*'', AInt 10])"
proof -
  have "snd (hash_Scan_stmt tx key now cursor pattern count) ! 3 = AString pattern"
    by (cases tx) (simp_all add: hash_Scan_stmt_def tx_Query_def Let_def)
  moreover have "hash_Scan_stmt PostgresTx ''person'' 1000 0 ''*'' 0
     = (''\<newline>'' @
        TAB @ ''select rhash.ctid::text, field, value\<newline>'' @
        TAB @ ''from rhash JOIN rkey on kid = rkey.id AND rkey.type = 4\<newline>'' @
        TAB @ ''where\<newline>'' @
        TAB @ TAB @ ''key = $1 AND (etime is null OR etime > $2)\<newline>'' @
        TAB @ TAB @ ''AND rhash.ctid::text > $3 AND field ILIKE $4\<newline>'' @
        TAB @ ''limit $5'',
        [AString ''person'', AInt 1000, AInt 0, AString ''*'', AInt 10])"
    by code_simp
  moreover have "hash_Scan_stmt RawTx ''person'' 1000 0 ''*'' 0
     = (sqlScan, [AString ''person'', AInt 1000, AInt 0, AString ''*'', AInt 10])"
    by (simp add: hash_Scan_stmt_def tx_Query_def scanPageSize_def)
  ultimately show ?thesis by blast
qed


subsection \<open>Store operations on a destination of another type\<close>

lemma store_wrong_typed:
  assumes "wrong_typed db now dest t"
  shows "store t replace db now dest result
           = (if result = [] then (Inr 0, db) else (Inl ErrKeyType, db))"
proof -
  obtain old others where f: "filter (\<lambda>k. k_key k = dest \<and> live now k) (rkey db) = old # others"
    using assms by (auto simp: wrong_typed_def neq_Nil_conv)
  then have "old \<in> set (filter (\<lambda>k. k_key k = dest \<and> live now k) (rkey db))" by simp
  then have o: "old \<in> set (rkey db)" "k_key old = dest" "live now old" by auto
  from assms have "\<forall>k\<in>set (rkey db). \<not> (k_key k = dest \<and> live now k \<and> k_type k = t)"
    by (simp add: wrong_typed_def filter_empty_conv)
  with o have "k_type old \<noteq> t" by blast
  then show ?thesis by (simp add: store_def f)
qed


text \<open>
  Claim C1.  Let the destination exist with a type other than the one of the store
  operation (set for \<open>sdiffstore\<close>, \<open>sinterstore\<close> and \<open>sunionstore\<close>, sorted set for
  \<open>zinterstore\<close> and \<open>zunionstore\<close>).  When the computed result is empty the operation
  returns 0 without an error and the database, hence the destination's value, is as it
  was; when the result is not empty the operation returns \<open>ErrKeyType\<close>.
\<close>

theorem store_on_wrong_typed_dest:
  "(wrong_typed db now dest TypeSet \<longrightarrow>
      set_DiffStore db now dest keys
        = (if set_Diff db now keys = [] then (Inr 0, db) else (Inl ErrKeyType, db))
      \<and> set_InterStore db now dest keys
        = (if set_Inter db now keys = [] then (Inr 0, db) else (Inl ErrKeyType, db))
      \<and> set_UnionStore db now dest keys
        = (if set_Union db now keys = [] then (Inr 0, db) else (Inl ErrKeyType, db)))
   \<and> (wrong_typed db now dest TypeZSet \<longrightarrow>
      zset_InterStore db now dest keys weights agg
        = (if zset_Inter db now keys weights agg = [] then (Inr 0, db)
           else (Inl ErrKeyType, db))
      \<and> zset_UnionStore db now dest keys weights agg
        = (if zset_Union db now keys weights agg = [] then (Inr 0, db)
           else (Inl ErrKeyType, db)))"
  by (simp add: set_DiffStore_def set_InterStore_def set_UnionStore_def
        zset_InterStore_def zset_UnionStore_def store_wrong_typed)


theorem store_on_wrong_typed_dest_witness:
  "wrong_typed (store_db ''one'') 1000 ''dest'' TypeSet
   \<and> wrong_typed (store_db ''two'') 1000 ''dest'' TypeSet
   \<and> wrong_typed (store_db ''one'') 1000 ''dest'' TypeZSet
   \<and> set_InterStore (store_db ''one'') 1000 ''dest'' [''key1'', ''key2'']
       = (Inl ErrKeyType, store_db ''one'')
   \<and> set_InterStore (store_db ''two'') 1000 ''dest'' [''key1'', ''key2'']
       = (Inr 0, store_db ''two'')
   \<and> set_DiffStore (store_db ''one'') 1000 ''dest'' [''key1'', ''key2'']
       = (Inr 0, store_db ''one'')
   \<and> set_UnionStore (store_db ''two'') 1000 ''dest'' [''key1'', ''key2'']
       = (Inl ErrKeyType, store_db ''two'')
   \<and> zset_InterStore (store_db ''one'') 1000 ''dest'' [''zkey''] [] AggSum
       = (Inl ErrKeyType, store_db ''one'')
   \<and> zset_UnionStore (store_db ''one'') 1000 ''dest'' [''key1''] [] AggSum
       = (Inr 0, store_db ''one'')"
proof -
  have w: "wrong_typed (store_db x) 1000 ''dest'' TypeSet"
          "wrong_typed (store_db x) 1000 ''dest'' TypeZSet" for x
    by (simp_all add: wrong_typed_def store_db_def emptyDB_def live_def TypeSet_def TypeZSet_def)
  have r: "set_Inter (store_db ''one'') 1000 [''key1'', ''key2''] = [''one'']"
          "set_Inter (store_db ''two'') 1000 [''key1'', ''key2''] = []"
          "set_Diff (store_db ''one'') 1000 [''key1'', ''key2''] = []"
          "set_Union (store_db ''two'') 1000 [''key1'', ''key2''] = [''one'', ''two'']"
    by (simp_all add: set_Inter_def set_Diff_def set_Union_def set_items_def live_keys_def
          store_db_def emptyDB_def live_def TypeSet_def)
  have z: "zset_Inter (store_db ''one'') 1000 [''zkey''] [] AggSum = [(''one'', 1)]"
          "zset_Union (store_db ''one'') 1000 [''key1''] [] AggSum = []"
    by (simp_all add: zset_Inter_def zset_Union_def weighted_sets_def zset_items_def
          scores_of_def fold_scores_def live_keys_def store_db_def emptyDB_def live_def
          TypeZSet_def)
  show ?thesis
    using store_on_wrong_typed_dest [where db = "store_db ''one''" and now = 1000
            and dest = "''dest''" and keys = "[''key1'', ''key2'']" and weights = "[]"
            and agg = AggSum]
          store_on_wrong_typed_dest [where db = "store_db ''two''" and now = 1000
            and dest = "''dest''" and keys = "[''key1'', ''key2'']" and weights = "[]"
            and agg = AggSum]
          store_on_wrong_typed_dest [where db = "store_db ''one''" and now = 1000
            and dest = "''dest''" and keys = "[''zkey'']" and weights = "[]"
            and agg = AggSum]
          store_on_wrong_typed_dest [where db = "store_db ''one''" and now = 1000
            and dest = "''dest''" and keys = "[''key1'']" and weights = "[]"
            and agg = AggSum]
    by (simp add: w r z)
qed

end
